theory Spec2Isabelle
  imports Main "HOL-Library.Word"
begin

unbundle bit_operations_syntax

section \<open>Windows symbol resolution for libunwind (unwind\_windows.c)\<close>

text \<open>
  A shallow embedding of \<^verbatim>\<open>src/clang_tool_chain/symbolizer/unwind_windows.c\<close>.
  The process-wide variables of the file are the record \<open>globals\<close>, passed in and
  returned by every operation. What the operating system answers during one run of
  \<^verbatim>\<open>parse_coff_symbols\<close> (the module path, the module handle, the file mapping and
  the bytes of the mapped executable, the allocator) is the record \<open>pe_env\<close>.
  A C \<^verbatim>\<open>int\<close> result is an \<open>int\<close>; \<^verbatim>\<open>DWORD\<close>, \<^verbatim>\<open>WORD\<close>, \<^verbatim>\<open>BYTE\<close>,
  \<^verbatim>\<open>SHORT\<close> and \<^verbatim>\<open>DWORD64\<close> are words of their width; a pointer that may be
  \<^verbatim>\<open>NULL\<close> is an \<open>option\<close>. The calls are modelled for one thread: entering and
  leaving the critical section changes nothing.
\<close>

subsection \<open>Constants of the platform headers\<close>

text \<open>
  The values of \<^verbatim>\<open>winnt.h\<close>, \<^verbatim>\<open>minwindef.h\<close> and LLVM's \<^verbatim>\<open>libunwind.h\<close>
  (the source's own header comment gives \<^verbatim>\<open>UNW_ENOINFO\<close> as -6549).
\<close>

definition IMAGE_SCN_CNT_CODE :: "32 word" where
  "IMAGE_SCN_CNT_CODE = 0x00000020"

definition IMAGE_SCN_MEM_EXECUTE :: "32 word" where
  "IMAGE_SCN_MEM_EXECUTE = 0x20000000"

definition IMAGE_DOS_SIGNATURE :: "16 word" where
  "IMAGE_DOS_SIGNATURE = 0x5A4D"

definition IMAGE_NT_SIGNATURE :: "32 word" where
  "IMAGE_NT_SIGNATURE = 0x00004550"

definition MAX_PATH :: "32 word" where
  "MAX_PATH = 260"

definition UNW_EUNSPEC :: int where
  "UNW_EUNSPEC = - 6540"

definition UNW_ENOINFO :: int where
  "UNW_ENOINFO = - 6549"

definition NUL :: char where
  "NUL = CHR 0x00"

subsection \<open>Data\<close>

text \<open>
  \<^verbatim>\<open>symbol_entry_t\<close>: the address and the name array. The array
  \<^verbatim>\<open>char name[256]\<close> is kept as the bytes it holds from its start; C reads it as a
  string, up to the first NUL (\<open>c_strlen\<close>).
\<close>

record symbol_entry_t =
  address :: "64 word"
  name :: "char list"

text \<open>
  The block \<^verbatim>\<open>malloc\<close> returned for the table: the number of elements it was sized
  for, and the elements written so far (the loop writes them at index 0, 1, 2, ... in
  turn, so they are a prefix of the block).
\<close>

record symbol_block =
  block_len :: nat
  block_data :: "symbol_entry_t list"

record globals =
  g_initialized :: "32 word"
  g_lock_initialized :: "32 word"
  g_symbol_table :: "symbol_block option"
  g_symbol_count :: nat
  g_image_base :: "64 word"
  g_runtime_base :: "64 word"

text \<open>The static initialisers of the file.\<close>

definition initial_globals :: globals where
  "initial_globals =
     \<lparr>g_initialized = 0, g_lock_initialized = 0, g_symbol_table = None,
      g_symbol_count = 0, g_image_base = 0, g_runtime_base = 0\<rparr>"

text \<open>
  \<^verbatim>\<open>COFF_SYMBOL\<close> (18 bytes, packed). The union \<^verbatim>\<open>Name\<close> is its 8 bytes
  \<open>ShortName\<close>; \<^verbatim>\<open>LongName.Zeros\<close> and \<^verbatim>\<open>LongName.Offset\<close> read bytes 0..3 and
  4..7 as little-endian \<^verbatim>\<open>DWORD\<close>s.
\<close>

record COFF_SYMBOL =
  ShortName :: "char list"
  Value :: "32 word"
  SectionNumber :: "16 word"
  Type :: "16 word"
  StorageClass :: "8 word"
  NumberOfAuxSymbols :: "8 word"

fun le_dword :: "char list \<Rightarrow> 32 word" where
  "le_dword [] = 0"
| "le_dword (b # bs) = of_char b + 256 * le_dword bs"

definition LongName_Zeros :: "COFF_SYMBOL \<Rightarrow> 32 word" where
  "LongName_Zeros symb = le_dword (take 4 (ShortName symb))"

definition LongName_Offset :: "COFF_SYMBOL \<Rightarrow> 32 word" where
  "LongName_Offset symb = le_dword (take 4 (drop 4 (ShortName symb)))"

text \<open>The two fields of \<^verbatim>\<open>IMAGE_SECTION_HEADER\<close> the file reads.\<close>

record IMAGE_SECTION_HEADER =
  VirtualAddress :: "32 word"
  Characteristics :: "32 word"

text \<open>
  What one run of \<^verbatim>\<open>parse_coff_symbols\<close> observes. The mapped file is read through
  typed views, as the casts of the source do: \<open>symbols env i\<close> is \<^verbatim>\<open>symbols[i]\<close>,
  \<open>sections env k\<close> is \<^verbatim>\<open>sections[k]\<close>, \<open>string_table env n\<close> is
  \<^verbatim>\<open>string_table[n]\<close>. The source checks none of these reads against the size of
  the file, and neither do the views.
\<close>

record pe_env =
  path_len :: "32 word"
  exe_module :: "64 word"
  file_opened :: bool
  mapping_created :: bool
  view_mapped :: bool
  e_magic :: "16 word"
  nt_Signature :: "32 word"
  ImageBase :: "64 word"
  PointerToSymbolTable :: "32 word"
  NumberOfSymbols :: "32 word"
  NumberOfSections :: "16 word"
  sections :: "nat \<Rightarrow> IMAGE_SECTION_HEADER"
  symbols :: "nat \<Rightarrow> COFF_SYMBOL"
  string_table :: "nat \<Rightarrow> char"
  malloc_succeeds :: "nat \<Rightarrow> bool"

text \<open>
  A cursor, as far as the file looks at it: what
  \<^verbatim>\<open>unw_get_reg(cursor, UNW_REG_IP, &ip)\<close> returns and the value it stores.
\<close>

record unw_cursor_t =
  get_reg_result :: int
  reg_ip :: "64 word"

text \<open>
  The arguments of \<^verbatim>\<open>unw_get_proc_name_windows\<close>: \<open>buf\<close> is the caller's buffer
  with its present bytes, \<open>offp\<close> the present value of \<^verbatim>\<open>*offp\<close>; \<open>None\<close> is
  \<^verbatim>\<open>NULL\<close>.
\<close>

record proc_name_args =
  cursor :: "unw_cursor_t option"
  buf :: "char list option"
  buf_len :: nat
  offp :: "64 word option"

text \<open>The result: the returned \<^verbatim>\<open>int\<close>, the globals, the buffer and \<^verbatim>\<open>*offp\<close>.\<close>

record proc_name_result =
  ret :: int
  globals_after :: globals
  buf_after :: "char list option"
  offp_after :: "64 word option"

subsection \<open>Section and symbol classification\<close>

definition is_executable_section :: "IMAGE_SECTION_HEADER \<Rightarrow> bool" where
  "is_executable_section section \<longleftrightarrow>
     (Characteristics section AND IMAGE_SCN_CNT_CODE) \<noteq> 0 \<or>
     (Characteristics section AND IMAGE_SCN_MEM_EXECUTE) \<noteq> 0"

text \<open>
  \<^verbatim>\<open>SectionNumber\<close> is a \<^verbatim>\<open>SHORT\<close> and \<^verbatim>\<open>num_sections\<close> a \<^verbatim>\<open>WORD\<close>; C
  compares them as \<^verbatim>\<open>int\<close>.
\<close>

definition is_text_symbol ::
  "COFF_SYMBOL \<Rightarrow> (nat \<Rightarrow> IMAGE_SECTION_HEADER) \<Rightarrow> 16 word \<Rightarrow> bool" where
  "is_text_symbol symb secs num_sections =
     (if sint (SectionNumber symb) \<le> 0 \<or> sint (SectionNumber symb) > uint num_sections
      then False
      else if \<not> is_executable_section (secs (nat (sint (SectionNumber symb) - 1)))
      then False
      else if (drop_bit 4 (Type symb) AND 0x3) = 2
      then True
      else if StorageClass symb = 2 \<or> StorageClass symb = 3
      then True
      else False)"

subsection \<open>Names\<close>

text \<open>\<^verbatim>\<open>strlen\<close>, and \<^verbatim>\<open>strncpy\<close> read as the string it leaves in the target.\<close>

definition c_strlen :: "char list \<Rightarrow> nat" where
  "c_strlen s = length (takeWhile (\<lambda>c. c \<noteq> NUL) s)"

definition c_strncpy :: "char list \<Rightarrow> nat \<Rightarrow> char list" where
  "c_strncpy src n = take n (takeWhile (\<lambda>c. c \<noteq> NUL) src)"

text \<open>\<^verbatim>\<open>strncpy(name, mem + off, n)\<close> for a source in the mapped file.\<close>

fun read_cstring :: "(nat \<Rightarrow> char) \<Rightarrow> nat \<Rightarrow> nat \<Rightarrow> char list" where
  "read_cstring mem off 0 = []"
| "read_cstring mem off (Suc n) =
     (if mem off = NUL then [] else mem off # read_cstring mem (Suc off) n)"

text \<open>
  The local \<^verbatim>\<open>name[256]\<close> of the filling pass, as the string it holds: a long name
  from the string table (at most 255 characters), or the 8 bytes of the entry with a
  NUL after them.
\<close>

definition symbol_name :: "pe_env \<Rightarrow> COFF_SYMBOL \<Rightarrow> char list" where
  "symbol_name env symb =
     (if LongName_Zeros symb = 0
      then read_cstring (string_table env) (unat (LongName_Offset symb)) 255
      else takeWhile (\<lambda>c. c \<noteq> NUL) (take 8 (ShortName symb)))"

text \<open>\<^verbatim>\<open>name[0] == '.'\<close>; the first byte of an empty string is the NUL.\<close>

definition is_internal_name :: "char list \<Rightarrow> bool" where
  "is_internal_name nm = (case nm of [] \<Rightarrow> False | c # _ \<Rightarrow> c = CHR ''.'')"

text \<open>
  The entry the filling pass stores: \<^verbatim>\<open>section_idx\<close> is a \<^verbatim>\<open>WORD\<close>, the sum
  \<^verbatim>\<open>VirtualAddress + Value\<close> is formed in 32 bits and then widened to
  \<^verbatim>\<open>DWORD64\<close>, and the sum with the runtime base is formed in 64 bits.
\<close>

definition symbol_rva :: "pe_env \<Rightarrow> COFF_SYMBOL \<Rightarrow> 64 word" where
  "symbol_rva env symb =
     ucast (VirtualAddress (sections env (unat (SectionNumber symb - 1))) + Value symb)"

definition make_entry :: "pe_env \<Rightarrow> 64 word \<Rightarrow> COFF_SYMBOL \<Rightarrow> symbol_entry_t" where
  "make_entry env rb symb =
     \<lparr>address = rb + symbol_rva env symb,
      name = c_strncpy (symbol_name env symb) 255\<rparr>"

subsection \<open>The two passes over the symbol table\<close>

text \<open>
  Both loops run on a \<^verbatim>\<open>DWORD\<close> index that the body advances by the (widened)
  \<^verbatim>\<open>NumberOfAuxSymbols\<close> and the loop header by one; the sums wrap at \<open>2^32\<close>, so a
  loop may fail to return, which is the value \<open>None\<close>. The counters \<^verbatim>\<open>func_count\<close>
  and \<^verbatim>\<open>idx\<close> are \<^verbatim>\<open>size_t\<close> (64 bits): a loop that returns has passed through
  each value of its 32-bit index at most once, so they stay below \<open>2^32 + 1\<close> and are
  natural numbers here.
\<close>

partial_function (option) count_loop :: "pe_env \<Rightarrow> 32 word \<Rightarrow> nat \<Rightarrow> nat option" where
  "count_loop env i func_count =
     (if i < NumberOfSymbols env
      then count_loop env
             (i + ucast (NumberOfAuxSymbols (symbols env (unat i))) + 1)
             (if is_text_symbol (symbols env (unat i)) (sections env) (NumberOfSections env)
              then func_count + 1 else func_count)
      else Some func_count)"

text \<open>
  The filling pass. \<open>tbl\<close> holds the entries written so far, so \<^verbatim>\<open>idx\<close> is its
  length and \<^verbatim>\<open>g_symbol_table[idx] = ...; idx++\<close> appends one.
\<close>

partial_function (option) fill_loop ::
  "pe_env \<Rightarrow> 64 word \<Rightarrow> nat \<Rightarrow> 32 word \<Rightarrow> symbol_entry_t list \<Rightarrow> symbol_entry_t list option" where
  "fill_loop env rb func_count i tbl =
     (if i < NumberOfSymbols env \<and> length tbl < func_count
      then (if \<not> is_text_symbol (symbols env (unat i)) (sections env) (NumberOfSections env)
            then fill_loop env rb func_count
                   (i + ucast (NumberOfAuxSymbols (symbols env (unat i))) + 1) tbl
            else if is_internal_name (symbol_name env (symbols env (unat i)))
            then fill_loop env rb func_count
                   (i + ucast (NumberOfAuxSymbols (symbols env (unat i))) + 1) tbl
            else fill_loop env rb func_count
                   (i + ucast (NumberOfAuxSymbols (symbols env (unat i))) + 1)
                   (tbl @ [make_entry env rb (symbols env (unat i))]))
      else Some tbl)"

declare count_loop.simps [code]
declare fill_loop.simps [code]

text \<open>
  \<^verbatim>\<open>qsort\<close> with \<^verbatim>\<open>compare_symbols\<close>: the entries in ascending order of address.
  (The C library leaves the order of entries with equal addresses open; this model
  keeps their order.)
\<close>

definition compare_symbols :: "symbol_entry_t \<Rightarrow> symbol_entry_t \<Rightarrow> int" where
  "compare_symbols sa sb =
     (if address sa < address sb then - 1 else if address sa > address sb then 1 else 0)"

definition qsort_symbols :: "symbol_entry_t list \<Rightarrow> symbol_entry_t list" where
  "qsort_symbols tbl = sort_key address tbl"

text \<open>\<^verbatim>\<open>sizeof(symbol_entry_t)\<close>: 8 bytes of address and 256 of name.\<close>

definition sizeof_symbol_entry_t :: nat where
  "sizeof_symbol_entry_t = 264"

definition parse_coff_symbols :: "pe_env \<Rightarrow> globals \<Rightarrow> (int \<times> globals) option" where
  "parse_coff_symbols env st =
     (if path_len env = 0 \<or> path_len env \<ge> MAX_PATH then Some (- 1, st)
      else let st1 = st\<lparr>g_runtime_base := exe_module env\<rparr> in
      if \<not> file_opened env then Some (- 1, st1)
      else if \<not> mapping_created env then Some (- 1, st1)
      else if \<not> view_mapped env then Some (- 1, st1)
      else if e_magic env \<noteq> IMAGE_DOS_SIGNATURE then Some (- 1, st1)
      else if nt_Signature env \<noteq> IMAGE_NT_SIGNATURE then Some (- 1, st1)
      else let st2 = st1\<lparr>g_image_base := ImageBase env\<rparr> in
      if PointerToSymbolTable env = 0 \<or> NumberOfSymbols env = 0 then Some (0, st2)
      else (case count_loop env 0 0 of
        None \<Rightarrow> None
      | Some func_count \<Rightarrow>
          (if func_count = 0 then Some (0, st2)
           else if \<not> malloc_succeeds env (func_count * sizeof_symbol_entry_t)
           then Some (- 1, st2\<lparr>g_symbol_table := None\<rparr>)
           else (case fill_loop env (g_runtime_base st2) func_count 0 [] of
             None \<Rightarrow> None
           | Some tbl \<Rightarrow>
               Some (0, st2\<lparr>g_symbol_table :=
                               Some \<lparr>block_len = func_count, block_data = qsort_symbols tbl\<rparr>,
                             g_symbol_count := length tbl\<rparr>)))))"

subsection \<open>Initialisation and teardown\<close>

definition init_lock :: "globals \<Rightarrow> globals" where
  "init_lock st = (if g_lock_initialized st = 0 then st\<lparr>g_lock_initialized := 1\<rparr> else st)"

definition ensure_initialized :: "pe_env \<Rightarrow> globals \<Rightarrow> (int \<times> globals) option" where
  "ensure_initialized env st0 =
     (let st = init_lock st0 in
      if g_initialized st \<noteq> 0 then Some (0, st)
      else if g_initialized st \<noteq> 0 then Some (0, st)
      else (case parse_coff_symbols env st of
        None \<Rightarrow> None
      | Some (result, st') \<Rightarrow> Some (result, st'\<lparr>g_initialized := 1\<rparr>)))"

definition unw_windows_sym_init :: "pe_env \<Rightarrow> globals \<Rightarrow> (int \<times> globals) option" where
  "unw_windows_sym_init env st = ensure_initialized env st"


subsection \<open>Lookup\<close>

function bsearch_loop ::
  "symbol_entry_t list \<Rightarrow> 64 word \<Rightarrow> nat \<Rightarrow> nat \<Rightarrow> symbol_entry_t option \<Rightarrow> symbol_entry_t option" where
  "bsearch_loop tbl a low high best =
     (if low < high
      then (if address (tbl ! (low + (high - low) div 2)) \<le> a
            then bsearch_loop tbl a (low + (high - low) div 2 + 1) high
                   (Some (tbl ! (low + (high - low) div 2)))
            else bsearch_loop tbl a low (low + (high - low) div 2) best)
      else best)"
  by pat_completeness auto
termination
  by (relation "measure (\<lambda>(tbl, a, low, high, best). high - low)") auto

declare bsearch_loop.simps [simp del]

definition find_symbol :: "globals \<Rightarrow> 64 word \<Rightarrow> symbol_entry_t option" where
  "find_symbol st a =
     (case g_symbol_table st of
        None \<Rightarrow> None
      | Some blk \<Rightarrow>
          (if g_symbol_count st = 0 then None
           else (case bsearch_loop (block_data blk) a 0 (g_symbol_count st) None of
             None \<Rightarrow> None
           | Some best \<Rightarrow> (if a - address best < 0x100000 then Some best else None))))"

text \<open>\<^verbatim>\<open>memcpy(buf, sym->name, name_len); buf[name_len] = '\0'\<close>.\<close>

definition write_name :: "char list \<Rightarrow> char list \<Rightarrow> nat \<Rightarrow> char list" where
  "write_name b nm name_len = (take name_len nm @ drop name_len b)[name_len := NUL]"

text \<open>
  The two ways \<^verbatim>\<open>unw_get_proc_name_windows\<close> ends: a \<^verbatim>\<open>return\<close> of an error or
  of \<^verbatim>\<open>UNW_ENOINFO\<close>, which writes nothing, and the last lines of the function, which
  cut \<^verbatim>\<open>name_len\<close> to \<^verbatim>\<open>buf_len - 1\<close>, copy the name, store the offset when
  \<^verbatim>\<open>offp\<close> is not \<^verbatim>\<open>NULL\<close> and return 0.
\<close>

definition name_not_resolved :: "int \<Rightarrow> globals \<Rightarrow> proc_name_args \<Rightarrow> proc_name_result" where
  "name_not_resolved r st args =
     \<lparr>ret = r, globals_after = st, buf_after = buf args, offp_after = offp args\<rparr>"

definition copy_name_out ::
  "globals \<Rightarrow> proc_name_args \<Rightarrow> char list \<Rightarrow> 64 word \<Rightarrow> symbol_entry_t \<Rightarrow> proc_name_result" where
  "copy_name_out st args b ip symb =
     (let name_len = (if c_strlen (name symb) \<ge> buf_len args
                      then buf_len args - 1 else c_strlen (name symb))
      in \<lparr>ret = 0, globals_after = st,
          buf_after = Some (write_name b (name symb) name_len),
          offp_after = (case offp args of
                          None \<Rightarrow> None
                        | Some old \<Rightarrow> Some (ip - address symb))\<rparr>)"

definition unw_get_proc_name_windows ::
  "pe_env \<Rightarrow> globals \<Rightarrow> proc_name_args \<Rightarrow> proc_name_result option" where
  "unw_get_proc_name_windows env st args =
     (case cursor args of
        None \<Rightarrow> Some (name_not_resolved UNW_EUNSPEC st args)
      | Some cur \<Rightarrow>
         (case buf args of
            None \<Rightarrow> Some (name_not_resolved UNW_EUNSPEC st args)
          | Some b \<Rightarrow>
             (if buf_len args = 0 then Some (name_not_resolved UNW_EUNSPEC st args)
              else (case ensure_initialized env st of
                 None \<Rightarrow> None
               | Some (r, st') \<Rightarrow>
                  (if r \<noteq> 0 then Some (name_not_resolved UNW_EUNSPEC st' args)
                   else if get_reg_result cur \<noteq> 0
                   then Some (name_not_resolved UNW_EUNSPEC st' args)
                   else if reg_ip cur = 0 then Some (name_not_resolved UNW_ENOINFO st' args)
                   else (case find_symbol st' (reg_ip cur) of
                      None \<Rightarrow> Some (name_not_resolved UNW_ENOINFO st' args)
                    | Some symb \<Rightarrow> Some (copy_name_out st' args b (reg_ip cur) symb)))))))"

subsection \<open>The symbol table as the specification reads it\<close>

text \<open>
  The raw records of the image in file order, and the primary records among them: each
  primary record is followed by \<^verbatim>\<open>NumberOfAuxSymbols\<close> auxiliary records, which are
  passed over. A primary record is function-like when \<open>is_text_symbol\<close> accepts it,
  and it qualifies for the index when moreover its name does not start with a dot.
\<close>

definition raw_records :: "pe_env \<Rightarrow> COFF_SYMBOL list" where
  "raw_records env = map (symbols env) [0..<unat (NumberOfSymbols env)]"

fun primary_records :: "COFF_SYMBOL list \<Rightarrow> COFF_SYMBOL list" where
  "primary_records [] = []"
| "primary_records (r # rs) = r # primary_records (drop (unat (NumberOfAuxSymbols r)) rs)"

definition function_like :: "pe_env \<Rightarrow> COFF_SYMBOL \<Rightarrow> bool" where
  "function_like env r = is_text_symbol r (sections env) (NumberOfSections env)"

definition qualifies :: "pe_env \<Rightarrow> COFF_SYMBOL \<Rightarrow> bool" where
  "qualifies env r \<longleftrightarrow> function_like env r \<and> \<not> is_internal_name (symbol_name env r)"

text \<open>
  The \<^verbatim>\<open>DWORD\<close> index of the two passes cannot wrap around: the table has at most
  \<open>2^32 - 256\<close> records (an executable of less than 77 GB).
\<close>

definition index_fits :: "pe_env \<Rightarrow> bool" where
  "index_fits env \<longleftrightarrow> unat (NumberOfSymbols env) + 255 < 2 ^ 32"

text \<open>
  The index of an image as the specification describes it: the qualifying primary
  records of its symbol table, each with its runtime address and its name (cut to 255
  characters), in ascending order of address.
\<close>

definition image_index :: "pe_env \<Rightarrow> symbol_entry_t list" where
  "image_index env =
     sort_key address
       (map (make_entry env (exe_module env))
          (filter (qualifies env) (primary_records (raw_records env))))"

subsection \<open>A small image\<close>

text \<open>
  An executable with a code section at \<open>0x1000\<close> and a data section at \<open>0x5000\<close>,
  loaded at \<open>0x140000000\<close>. Its symbol table has five raw records: the section symbol
  \<^verbatim>\<open>.text\<close> with one auxiliary record after it (whose bytes, read as a symbol, would
  look like a function), the functions \<^verbatim>\<open>main\<close> and \<^verbatim>\<open>helper\<close>, and a data
  symbol.
\<close>

definition demo_sections :: "nat \<Rightarrow> IMAGE_SECTION_HEADER" where
  "demo_sections k =
     (if k = 0 then \<lparr>VirtualAddress = 0x1000, Characteristics = 0x60000020\<rparr>
      else \<lparr>VirtualAddress = 0x5000, Characteristics = 0xC0000040\<rparr>)"

definition demo_records :: "COFF_SYMBOL list" where
  "demo_records =
     [\<lparr>ShortName = [CHR ''.'', CHR ''t'', CHR ''e'', CHR ''x'', CHR ''t'', CHR 0x00, CHR 0x00, CHR 0x00],
       Value = 0, SectionNumber = 1, Type = 0, StorageClass = 3, NumberOfAuxSymbols = 1\<rparr>,
      \<lparr>ShortName = [CHR ''j'', CHR ''u'', CHR ''n'', CHR ''k'', CHR 0x00, CHR 0x00, CHR 0x00, CHR 0x00],
       Value = 0x20, SectionNumber = 1, Type = 0x20, StorageClass = 2, NumberOfAuxSymbols = 0\<rparr>,
      \<lparr>ShortName = [CHR ''m'', CHR ''a'', CHR ''i'', CHR ''n'', CHR 0x00, CHR 0x00, CHR 0x00, CHR 0x00],
       Value = 0x100, SectionNumber = 1, Type = 0x20, StorageClass = 2, NumberOfAuxSymbols = 0\<rparr>,
      \<lparr>ShortName = [CHR ''h'', CHR ''e'', CHR ''l'', CHR ''p'', CHR ''e'', CHR ''r'', CHR 0x00, CHR 0x00],
       Value = 0x40, SectionNumber = 1, Type = 0x20, StorageClass = 3, NumberOfAuxSymbols = 0\<rparr>,
      \<lparr>ShortName = [CHR ''c'', CHR ''o'', CHR ''u'', CHR ''n'', CHR ''t'', CHR ''e'', CHR ''r'', CHR 0x00],
       Value = 0, SectionNumber = 2, Type = 0, StorageClass = 2, NumberOfAuxSymbols = 0\<rparr>]"

definition demo_env :: pe_env where
  "demo_env =
     \<lparr>path_len = 20, exe_module = 0x140000000, file_opened = True, mapping_created = True,
      view_mapped = True, e_magic = 0x5A4D, nt_Signature = 0x4550, ImageBase = 0x140000000,
      PointerToSymbolTable = 0x2000, NumberOfSymbols = 5, NumberOfSections = 2,
      sections = demo_sections, symbols = nth demo_records,
      string_table = (\<lambda>n. CHR 0x00), malloc_succeeds = (\<lambda>n. True)\<rparr>"

text \<open>The table \<^verbatim>\<open>parse_coff_symbols\<close> builds from it, and the globals after it.\<close>

definition demo_table :: "symbol_entry_t list" where
  "demo_table =
     [\<lparr>address = 0x140001040, name = ''helper''\<rparr>,
      \<lparr>address = 0x140001100, name = ''main''\<rparr>]"

definition demo_globals :: globals where
  "demo_globals =
     \<lparr>g_initialized = 1, g_lock_initialized = 1,
      g_symbol_table = Some \<lparr>block_len = 3, block_data = demo_table\<rparr>,
      g_symbol_count = 2, g_image_base = 0x140000000, g_runtime_base = 0x140000000\<rparr>"

text \<open>The same executable when its file cannot be opened, and when it is stripped.\<close>

definition unreadable_env :: pe_env where
  "unreadable_env = demo_env\<lparr>file_opened := False\<rparr>"

definition failed_globals :: globals where
  "failed_globals =
     \<lparr>g_initialized = 1, g_lock_initialized = 1, g_symbol_table = None,
      g_symbol_count = 0, g_image_base = 0, g_runtime_base = 0x140000000\<rparr>"

definition stripped_env :: pe_env where
  "stripped_env = demo_env\<lparr>PointerToSymbolTable := 0, NumberOfSymbols := 0\<rparr>"

definition demo_parsed :: globals where
  "demo_parsed = demo_globals\<lparr>g_initialized := 0, g_lock_initialized := 0\<rparr>"

definition stripped_globals :: globals where
  "stripped_globals =
     \<lparr>g_initialized = 1, g_lock_initialized = 1, g_symbol_table = None,
      g_symbol_count = 0, g_image_base = 0x140000000, g_runtime_base = 0x140000000\<rparr>"

text \<open>
  A caller's arguments: a cursor whose instruction pointer is \<open>ip\<close>, a buffer of 16
  bytes and a place for the offset.
\<close>

definition demo_args :: "64 word \<Rightarrow> proc_name_args" where
  "demo_args ip =
     \<lparr>cursor = Some \<lparr>get_reg_result = 0, reg_ip = ip\<rparr>,
      buf = Some (replicate 16 (CHR ''#'')), buf_len = 16, offp = Some 0\<rparr>"

text \<open>
  A second image: the first one with a sixth record, a function two megabytes into the
  code section whose name is too long for the entry and stands in the string table at
  offset 4 (behind the four bytes that hold the size of the string table).
\<close>

definition far_records :: "COFF_SYMBOL list" where
  "far_records =
     demo_records @
     [\<lparr>ShortName = [CHR 0x00, CHR 0x00, CHR 0x00, CHR 0x00, CHR 0x04, CHR 0x00, CHR 0x00, CHR 0x00],
       Value = 0x200000, SectionNumber = 1, Type = 0x20, StorageClass = 2,
       NumberOfAuxSymbols = 0\<rparr>]"

definition far_strings :: "char list" where
  "far_strings =
     [CHR 0x17, CHR 0x00, CHR 0x00, CHR 0x00] @ ''long_function_name'' @ [CHR 0x00]"

definition far_env :: pe_env where
  "far_env =
     demo_env\<lparr>NumberOfSymbols := 6, symbols := nth far_records,
              string_table := (\<lambda>n. if n < length far_strings then far_strings ! n else CHR 0x00)\<rparr>"

definition far_table :: "symbol_entry_t list" where
  "far_table =
     [\<lparr>address = 0x140001040, name = ''helper''\<rparr>,
      \<lparr>address = 0x140001100, name = ''main''\<rparr>,
      \<lparr>address = 0x140201000, name = ''long_function_name''\<rparr>]"

definition far_globals :: globals where
  "far_globals =
     \<lparr>g_initialized = 1, g_lock_initialized = 1,
      g_symbol_table = Some \<lparr>block_len = 4, block_data = far_table\<rparr>,
      g_symbol_count = 3, g_image_base = 0x140000000, g_runtime_base = 0x140000000\<rparr>"


text \<open>The same arguments with a buffer of 32 bytes.\<close>

definition wide_args :: "64 word \<Rightarrow> proc_name_args" where
  "wide_args ip =
     \<lparr>cursor = Some \<lparr>get_reg_result = 0, reg_ip = ip\<rparr>,
      buf = Some (replicate 32 (CHR ''#'')), buf_len = 32, offp = Some 0\<rparr>"

subsection \<open>What the globals hold between calls\<close>

text \<open>
  The entries the lookup can reach: the first \<^verbatim>\<open>g_symbol_count\<close> elements of the
  block.
\<close>

definition table_entries :: "globals \<Rightarrow> symbol_entry_t list" where
  "table_entries st =
     (case g_symbol_table st of
        None \<Rightarrow> []
      | Some blk \<Rightarrow> take (g_symbol_count st) (block_data blk))"

text \<open>
  The states the three entry points move between, starting from the static
  initialisers: the lock exists once initialisation has run; a table exists only while
  \<^verbatim>\<open>g_initialized\<close> is set, every element up to \<^verbatim>\<open>g_symbol_count\<close> has been
  written, and the elements are in ascending order of address.
\<close>

definition globals_inv :: "globals \<Rightarrow> bool" where
  "globals_inv st \<longleftrightarrow>
     (g_initialized st = 0 \<or> g_lock_initialized st \<noteq> 0) \<and>
     (case g_symbol_table st of
        None \<Rightarrow> g_symbol_count st = 0
      | Some blk \<Rightarrow>
          g_initialized st \<noteq> 0 \<and> g_symbol_count st = length (block_data blk) \<and>
          sorted (map address (block_data blk)))"

text \<open>The string a buffer holds, as C reads it.\<close>

definition c_string :: "char list \<Rightarrow> char list" where
  "c_string bytes = takeWhile (\<lambda>c. c \<noteq> NUL) bytes"

text \<open>The section a symbol's 1-based \<^verbatim>\<open>SectionNumber\<close> refers to.\<close>

definition section_of :: "pe_env \<Rightarrow> COFF_SYMBOL \<Rightarrow> IMAGE_SECTION_HEADER" where
  "section_of env r = sections env (nat (sint (SectionNumber r) - 1))"

section \<open>The two passes visit the primary records\<close>

text \<open>
  While the index cannot wrap, one round of either loop moves it past the record and its
  auxiliary records.
\<close>

lemma unat_advance:
  fixes i :: "32 word" and a :: "8 word"
  assumes "unat i + 256 < 2 ^ 32"
  shows "unat (i + ucast a + 1) = unat i + unat a + 1"
proof -
  have a: "unat a < 256" using unsigned_less[of a, where 'a=nat] by simp
  have u: "unat (ucast a :: 32 word) = unat a"
    using a by (simp add: unsigned_ucast_eq take_bit_nat_eq_self)
  have lt: "unat i + unat a + 1 < 2 ^ 32"
    using assms a by simp
  have "unat (i + ucast a) = (unat i + unat a) mod 2 ^ 32"
    by (simp add: unat_word_ariths u)
  also have "\<dots> = unat i + unat a"
    using lt by (intro mod_less) simp
  finally have 1: "unat (i + ucast a) = unat i + unat a" .
  have "unat (i + ucast a + 1) = (unat (i + ucast a) + unat (1 :: 32 word)) mod 2 ^ LENGTH(32)"
    by (rule unat_word_ariths)
  also have "\<dots> = (unat i + unat a + 1) mod 2 ^ 32"
    unfolding 1 by simp
  also have "\<dots> = unat i + unat a + 1"
    using lt by (intro mod_less)
  finally show ?thesis .
qed

lemma drop_raw_records:
  assumes "k < unat (NumberOfSymbols env)"
  shows "drop k (raw_records env) = symbols env k # drop (Suc k) (raw_records env)"
proof -
  have "drop k (raw_records env) = map (symbols env) [k..<unat (NumberOfSymbols env)]"
    by (simp add: raw_records_def drop_map)
  also have "\<dots> = symbols env k # map (symbols env) [Suc k..<unat (NumberOfSymbols env)]"
    using assms by (simp add: upt_conv_Cons)
  also have "map (symbols env) [Suc k..<unat (NumberOfSymbols env)] = drop (Suc k) (raw_records env)"
    by (simp add: raw_records_def drop_map)
  finally show ?thesis .
qed

lemma drop_raw_records_beyond:
  "unat (NumberOfSymbols env) \<le> k \<Longrightarrow> drop k (raw_records env) = []"
  by (simp add: raw_records_def)

lemma primary_records_step:
  assumes "k < unat (NumberOfSymbols env)"
  shows "primary_records (drop k (raw_records env)) =
         symbols env k #
         primary_records (drop (k + unat (NumberOfAuxSymbols (symbols env k)) + 1) (raw_records env))"
  using drop_raw_records[OF assms] by (simp add: add.commute)

lemma count_loop_char:
  assumes fits: "index_fits env"
  shows "count_loop env i c =
         Some (c + length (filter (function_like env)
                             (primary_records (drop (unat i) (raw_records env)))))"
proof (induction "unat (NumberOfSymbols env) - unat i" arbitrary: i c rule: less_induct)
  case less
  show ?case
  proof (cases "i < NumberOfSymbols env")
    case False
    then have "unat (NumberOfSymbols env) \<le> unat i"
      by (simp add: word_less_nat_alt)
    then show ?thesis
      using False by (subst count_loop.simps) (simp add: drop_raw_records_beyond)
  next
    case True
    then have lt: "unat i < unat (NumberOfSymbols env)"
      by (simp add: word_less_nat_alt)
    let ?a = "NumberOfAuxSymbols (symbols env (unat i))"
    let ?i' = "i + ucast ?a + 1"
    have adv: "unat ?i' = unat i + unat ?a + 1"
      using fits lt by (intro unat_advance) (simp add: index_fits_def)
    have dec: "unat (NumberOfSymbols env) - unat ?i' < unat (NumberOfSymbols env) - unat i"
      using lt adv by simp
    show ?thesis
      using True less[OF dec] adv primary_records_step[OF lt]
      by (subst count_loop.simps) (simp add: function_like_def)
  qed
qed

lemma fill_loop_char:
  assumes fits: "index_fits env"
    and room: "length tbl + length (filter (function_like env)
                  (primary_records (drop (unat i) (raw_records env)))) \<le> func_count"
  shows "fill_loop env rb func_count i tbl =
         Some (tbl @ map (make_entry env rb)
                       (filter (qualifies env)
                          (primary_records (drop (unat i) (raw_records env)))))"
  using room
proof (induction "unat (NumberOfSymbols env) - unat i" arbitrary: i tbl rule: less_induct)
  case less
  show ?case
  proof (cases "i < NumberOfSymbols env")
    case False
    then have "unat (NumberOfSymbols env) \<le> unat i"
      by (simp add: word_less_nat_alt)
    then show ?thesis
      using False by (subst fill_loop.simps) (simp add: drop_raw_records_beyond)
  next
    case True
    then have lt: "unat i < unat (NumberOfSymbols env)"
      by (simp add: word_less_nat_alt)
    let ?a = "NumberOfAuxSymbols (symbols env (unat i))"
    let ?i' = "i + ucast ?a + 1"
    let ?rest = "primary_records (drop (unat ?i') (raw_records env))"
    have adv: "unat ?i' = unat i + unat ?a + 1"
      using fits lt by (intro unat_advance) (simp add: index_fits_def)
    have dec: "unat (NumberOfSymbols env) - unat ?i' < unat (NumberOfSymbols env) - unat i"
      using lt adv by simp
    have step: "primary_records (drop (unat i) (raw_records env)) = symbols env (unat i) # ?rest"
      using primary_records_step[OF lt] adv by simp
    show ?thesis
    proof (cases "length tbl < func_count")
      case full: False
      then have "length (filter (function_like env)
                  (primary_records (drop (unat i) (raw_records env)))) = 0"
        using less.prems by arith
      then have "filter (function_like env) (primary_records (drop (unat i) (raw_records env))) = []"
        by simp
      then have "filter (qualifies env) (primary_records (drop (unat i) (raw_records env))) = []"
        by (auto simp: filter_empty_conv qualifies_def)
      then show ?thesis
        using full by (subst fill_loop.simps) simp
    next
      case space: True
      show ?thesis
      proof (cases "function_like env (symbols env (unat i))")
        case nf: False
        have "length tbl + length (filter (function_like env) ?rest) \<le> func_count"
          using less.prems step nf by simp
        from less.hyps[OF dec this] show ?thesis
          using True space nf step
          by (subst fill_loop.simps) (simp add: function_like_def qualifies_def)
      next
        case f: True
        show ?thesis
        proof (cases "is_internal_name (symbol_name env (symbols env (unat i)))")
          case True
          have "length tbl + length (filter (function_like env) ?rest) \<le> func_count"
            using less.prems step f by simp
          from less.hyps[OF dec this] show ?thesis
            using \<open>i < NumberOfSymbols env\<close> space f step True
            by (subst fill_loop.simps) (simp add: function_like_def qualifies_def)
        next
          case False
          have "length (tbl @ [make_entry env rb (symbols env (unat i))])
                  + length (filter (function_like env) ?rest) \<le> func_count"
            using less.prems step f by simp
          from less.hyps[OF dec this] show ?thesis
            using \<open>i < NumberOfSymbols env\<close> space f step False
            by (subst fill_loop.simps) (simp add: function_like_def qualifies_def)
        qed
      qed
    qed
  qed
qed


lemma filter_conj_length_eq:
  "length (filter (\<lambda>x. P x \<and> Q x) xs) = length (filter P xs) \<longleftrightarrow> (\<forall>x\<in>set xs. P x \<longrightarrow> Q x)"
proof (induction xs)
  case Nil
  then show ?case by simp
next
  case (Cons x xs)
  have le: "length (filter (\<lambda>x. P x \<and> Q x) xs) \<le> length (filter P xs)"
    by (induction xs) auto
  show ?case using Cons le by auto
qed

lemma filter_conj_length_le:
  "length (filter (\<lambda>x. P x \<and> Q x) xs) \<le> length (filter P xs)"
  by (induction xs) auto

lemma qualifies_filter:
  "filter (qualifies env) xs =
   filter (\<lambda>r. function_like env r \<and> \<not> is_internal_name (symbol_name env r)) xs"
  by (simp add: qualifies_def[abs_def])


lemma count_loop_step:
  assumes "i < NumberOfSymbols env"
  shows "count_loop env i c =
         count_loop env (i + ucast (NumberOfAuxSymbols (symbols env (unat i))) + 1)
           (if function_like env (symbols env (unat i)) then c + 1 else c)"
  using assms by (subst count_loop.simps) (simp add: function_like_def)

lemma fill_loop_step:
  assumes "i < NumberOfSymbols env" and "length tbl < func_count"
  shows "fill_loop env rb func_count i tbl =
         fill_loop env rb func_count (i + ucast (NumberOfAuxSymbols (symbols env (unat i))) + 1)
           (if qualifies env (symbols env (unat i))
            then tbl @ [make_entry env rb (symbols env (unat i))] else tbl)"
  using assms by (subst fill_loop.simps) (simp add: function_like_def qualifies_def)

lemma index_advance:
  assumes "index_fits env" and "i < NumberOfSymbols env"
  shows "unat (i + ucast (NumberOfAuxSymbols (symbols env (unat i))) + 1) =
         unat i + (1 + unat (NumberOfAuxSymbols (symbols env (unat i))))"
proof -
  have "unat i < unat (NumberOfSymbols env)"
    using assms(2) by (simp add: word_less_nat_alt)
  then have "unat i + 256 < 2 ^ 32"
    using assms(1) by (simp add: index_fits_def)
  then show ?thesis
    by (simp add: unat_advance)
qed

text \<open>
  Claim C8. In a table whose index cannot wrap, a primary record with \<open>k\<close> auxiliary
  records moves the index of the counting pass and of the filling pass by \<open>1 + k\<close>, so
  the \<open>k\<close> raw records after it are never read as primary records: the counting pass
  counts the function-like primary records, and the filling pass stores the entries of
  the qualifying primary records, in file order (this is the table before sorting).
\<close>

theorem aux_records_skipped:
  assumes "index_fits env"
  shows "(\<forall>i c. i < NumberOfSymbols env \<longrightarrow>
            unat (i + ucast (NumberOfAuxSymbols (symbols env (unat i))) + 1) =
              unat i + (1 + unat (NumberOfAuxSymbols (symbols env (unat i)))) \<and>
            count_loop env i c =
              count_loop env (i + ucast (NumberOfAuxSymbols (symbols env (unat i))) + 1)
                (if function_like env (symbols env (unat i)) then c + 1 else c)) \<and>
         (\<forall>i tbl func_count. i < NumberOfSymbols env \<and> length tbl < func_count \<longrightarrow>
            fill_loop env rb func_count i tbl =
              fill_loop env rb func_count
                (i + ucast (NumberOfAuxSymbols (symbols env (unat i))) + 1)
                (if qualifies env (symbols env (unat i))
                 then tbl @ [make_entry env rb (symbols env (unat i))] else tbl)) \<and>
         count_loop env 0 0 =
           Some (length (filter (function_like env) (primary_records (raw_records env)))) \<and>
         fill_loop env rb (length (filter (function_like env) (primary_records (raw_records env)))) 0 [] =
           Some (map (make_entry env rb)
                   (filter (qualifies env) (primary_records (raw_records env))))"
proof (intro conjI allI impI)
  fix i c assume "i < NumberOfSymbols env"
  then show "unat (i + ucast (NumberOfAuxSymbols (symbols env (unat i))) + 1) =
              unat i + (1 + unat (NumberOfAuxSymbols (symbols env (unat i))))"
    by (rule index_advance[OF assms])
next
  fix i c assume "i < NumberOfSymbols env"
  then show "count_loop env i c =
              count_loop env (i + ucast (NumberOfAuxSymbols (symbols env (unat i))) + 1)
                (if function_like env (symbols env (unat i)) then c + 1 else c)"
    by (rule count_loop_step)
next
  fix i :: "32 word" and tbl :: "symbol_entry_t list" and func_count :: nat
  assume "i < NumberOfSymbols env \<and> length tbl < func_count"
  then show "fill_loop env rb func_count i tbl =
              fill_loop env rb func_count
                (i + ucast (NumberOfAuxSymbols (symbols env (unat i))) + 1)
                (if qualifies env (symbols env (unat i))
                 then tbl @ [make_entry env rb (symbols env (unat i))] else tbl)"
    by (simp add: fill_loop_step)
next
  show "count_loop env 0 0 =
           Some (length (filter (function_like env) (primary_records (raw_records env))))"
    using count_loop_char[OF assms, of 0 0] by simp
next
  show "fill_loop env rb (length (filter (function_like env) (primary_records (raw_records env)))) 0 [] =
           Some (map (make_entry env rb)
                   (filter (qualifies env) (primary_records (raw_records env))))"
    using fill_loop_char[OF assms, of "[]" 0 _ rb] by simp
qed

theorem aux_records_skipped_witness:
  "index_fits demo_env \<and>
   primary_records (raw_records demo_env) =
     [demo_records ! 0, demo_records ! 2, demo_records ! 3, demo_records ! 4] \<and>
   count_loop demo_env 0 0 = Some 3 \<and>
   fill_loop demo_env 0x140000000 3 0 [] =
     Some [\<lparr>address = 0x140001100, name = ''main''\<rparr>,
           \<lparr>address = 0x140001040, name = ''helper''\<rparr>]"
proof -
  have fits: "index_fits demo_env"
    by (simp add: index_fits_def demo_env_def)
  have prims: "primary_records (raw_records demo_env) =
     [demo_records ! 0, demo_records ! 2, demo_records ! 3, demo_records ! 4]"
    by code_simp
  have n: "length (filter (function_like demo_env) (primary_records (raw_records demo_env))) = 3"
    by code_simp
  have es: "map (make_entry demo_env 0x140000000)
              (filter (qualifies demo_env) (primary_records (raw_records demo_env))) =
            [\<lparr>address = 0x140001100, name = ''main''\<rparr>,
             \<lparr>address = 0x140001040, name = ''helper''\<rparr>]"
    by code_simp
  show ?thesis
    using aux_records_skipped[OF fits, of "0x140000000"] fits prims n es by simp
qed

section \<open>The size of the allocation and the number of entries\<close>

text \<open>
  Claim C3, as the code has it. The counting pass counts the function-like primary
  records, whatever their names; the filling pass leaves out those whose name starts
  with a dot. So the block is sized for the function-like records, the table holds the
  qualifying ones, which are at most as many, and the two numbers are equal exactly when
  no function-like primary record has a name that starts with a dot.
\<close>

theorem allocation_bounds_entries:
  assumes fits: "index_fits env"
    and parse: "parse_coff_symbols env st = Some (r, st')"
    and before: "g_symbol_table st = None"
    and after: "g_symbol_table st' = Some blk"
  shows "block_len blk = length (filter (function_like env) (primary_records (raw_records env))) \<and>
         malloc_succeeds env (block_len blk * sizeof_symbol_entry_t) \<and>
         g_symbol_count st' = length (filter (qualifies env) (primary_records (raw_records env))) \<and>
         length (block_data blk) = g_symbol_count st' \<and>
         g_symbol_count st' \<le> block_len blk \<and>
         (g_symbol_count st' = block_len blk \<longleftrightarrow>
            (\<forall>r\<in>set (primary_records (raw_records env)).
               function_like env r \<longrightarrow> \<not> is_internal_name (symbol_name env r)))"
proof -
  let ?prims = "primary_records (raw_records env)"
  let ?n = "length (filter (function_like env) ?prims)"
  have c: "count_loop env 0 0 = Some ?n"
    using count_loop_char[OF fits, of 0 0] by simp
  have f: "fill_loop env rb ?n 0 [] = Some (map (make_entry env rb) (filter (qualifies env) ?prims))" for rb
    using fill_loop_char[OF fits, of "[]" 0 ?n rb] by simp
  from parse before after
  have "block_len blk = ?n \<and> malloc_succeeds env (?n * sizeof_symbol_entry_t) \<and>
        g_symbol_count st' = length (filter (qualifies env) ?prims) \<and>
        length (block_data blk) = length (filter (qualifies env) ?prims)"
    by (auto simp: parse_coff_symbols_def Let_def c f qsort_symbols_def split: if_splits)
  then show ?thesis
    using filter_conj_length_eq[of "function_like env" "\<lambda>r. \<not> is_internal_name (symbol_name env r)" ?prims]
      filter_conj_length_le[of "function_like env" "\<lambda>r. \<not> is_internal_name (symbol_name env r)" ?prims]
    by (simp add: qualifies_filter)
qed


theorem allocation_bounds_entries_witness:
  "index_fits demo_env \<and>
   parse_coff_symbols demo_env initial_globals = Some (0, demo_parsed) \<and>
   g_symbol_table initial_globals = None \<and>
   g_symbol_table demo_parsed = Some \<lparr>block_len = 3, block_data = demo_table\<rparr> \<and>
   length (filter (function_like demo_env) (primary_records (raw_records demo_env))) = 3 \<and>
   length (filter (qualifies demo_env) (primary_records (raw_records demo_env))) = 2 \<and>
   g_symbol_count demo_parsed = 2"
proof -
  have fits: "index_fits demo_env"
    by (simp add: index_fits_def demo_env_def)
  have parse: "parse_coff_symbols demo_env initial_globals = Some (0, demo_parsed)"
    by code_simp
  have before: "g_symbol_table initial_globals = None"
    by (simp add: initial_globals_def)
  have after: "g_symbol_table demo_parsed = Some \<lparr>block_len = 3, block_data = demo_table\<rparr>"
    by (simp add: demo_parsed_def demo_globals_def)
  have cnt: "g_symbol_count demo_parsed = 2"
    by (simp add: demo_parsed_def demo_globals_def)
  show ?thesis
    using allocation_bounds_entries[OF fits parse before after] fits parse before after cnt
    by simp
qed

text \<open>
  The claim as stated fails on the small image: the section symbol \<^verbatim>\<open>.text\<close> is
  counted by the first pass and left out by the second, so the block is sized for three
  entries and the table holds two.
\<close>

theorem exact_allocation_counterexample:
  "count_loop demo_env 0 0 = Some 3 \<and>
   fill_loop demo_env 0x140000000 3 0 [] =
     Some [\<lparr>address = 0x140001100, name = ''main''\<rparr>,
           \<lparr>address = 0x140001040, name = ''helper''\<rparr>] \<and>
   parse_coff_symbols demo_env initial_globals = Some (0, demo_parsed) \<and>
   g_symbol_table demo_parsed = Some \<lparr>block_len = 3, block_data = demo_table\<rparr> \<and>
   g_symbol_count demo_parsed = 2"
  by code_simp

text \<open>While the index cannot wrap, both loops end, and so does the parse.\<close>

lemma parse_coff_symbols_returns:
  assumes "index_fits env"
  shows "\<exists>r st'. parse_coff_symbols env st = Some (r, st')"
proof -
  let ?n = "length (filter (function_like env) (primary_records (raw_records env)))"
  have c: "count_loop env 0 0 = Some ?n"
    using count_loop_char[OF assms, of 0 0] by simp
  have f: "fill_loop env rb ?n 0 [] =
           Some (map (make_entry env rb) (filter (qualifies env) (primary_records (raw_records env))))"
    for rb
    using fill_loop_char[OF assms, of "[]" 0 ?n rb] by simp
  show ?thesis
    by (simp add: parse_coff_symbols_def Let_def c f)
qed

section \<open>The floor search\<close>

text \<open>
  On a table in ascending order the loop of \<^verbatim>\<open>find_symbol\<close> ends with the last
  entry whose address is at most the query, or with nothing when every address is
  greater.
\<close>

lemma compare_symbols_order:
  "compare_symbols sa sb \<le> 0 \<longleftrightarrow> address sa \<le> address sb"
  by (auto simp: compare_symbols_def)

lemma sorted_address_mono:
  assumes "sorted (map address tbl)" and "j \<le> k" and "k < length tbl"
  shows "address (tbl ! j) \<le> address (tbl ! k)"
  using sorted_nth_mono[OF assms(1), of j k] assms(2,3) by simp

lemma bsearch_loop_split:
  assumes "sorted (map address tbl)"
    and "high \<le> length tbl" and "low \<le> high"
    and "\<forall>j<low. address (tbl ! j) \<le> a"
    and "\<forall>j. high \<le> j \<and> j < length tbl \<longrightarrow> a < address (tbl ! j)"
    and "best = (if low = 0 then None else Some (tbl ! (low - 1)))"
  shows "\<exists>m\<le>length tbl.
           (\<forall>j<m. address (tbl ! j) \<le> a) \<and>
           (\<forall>j. m \<le> j \<and> j < length tbl \<longrightarrow> a < address (tbl ! j)) \<and>
           bsearch_loop tbl a low high best = (if m = 0 then None else Some (tbl ! (m - 1)))"
  using assms
proof (induction tbl a low high best rule: bsearch_loop.induct)
  case (1 tbl a low high best)
  let ?mid = "low + (high - low) div 2"
  show ?case
  proof (cases "low < high")
    case False
    then have eq: "low = high" using "1.prems"(3) by simp
    have "bsearch_loop tbl a low high best = best"
      using False by (subst bsearch_loop.simps) simp
    then show ?thesis
      using "1.prems" eq by (intro exI[of _ low]) simp
  next
    case True
    then have mid: "low \<le> ?mid" "?mid < high" by auto
    then have midlen: "?mid < length tbl" using "1.prems"(2) by simp
    show ?thesis
    proof (cases "address (tbl ! ?mid) \<le> a")
      case le: True
      have below: "\<forall>j<?mid + 1. address (tbl ! j) \<le> a"
      proof (intro allI impI)
        fix j assume "j < ?mid + 1"
        then have "address (tbl ! j) \<le> address (tbl ! ?mid)"
          using sorted_address_mono[OF "1.prems"(1) _ midlen, of j] by simp
        then show "address (tbl ! j) \<le> a" using le by simp
      qed
      have "\<exists>m\<le>length tbl.
           (\<forall>j<m. address (tbl ! j) \<le> a) \<and>
           (\<forall>j. m \<le> j \<and> j < length tbl \<longrightarrow> a < address (tbl ! j)) \<and>
           bsearch_loop tbl a (?mid + 1) high (Some (tbl ! ?mid)) =
             (if m = 0 then None else Some (tbl ! (m - 1)))"
        using True le mid "1.prems"(1,2,5) below
        by (intro "1.IH"(1)) simp_all
      then show ?thesis
        using True le by (subst bsearch_loop.simps) simp
    next
      case gt: False
      have above: "\<forall>j. ?mid \<le> j \<and> j < length tbl \<longrightarrow> a < address (tbl ! j)"
      proof (intro allI impI)
        fix j assume j: "?mid \<le> j \<and> j < length tbl"
        then have "address (tbl ! ?mid) \<le> address (tbl ! j)"
          using sorted_address_mono[OF "1.prems"(1), of ?mid j] by simp
        then show "a < address (tbl ! j)" using gt by simp
      qed
      have "\<exists>m\<le>length tbl.
           (\<forall>j<m. address (tbl ! j) \<le> a) \<and>
           (\<forall>j. m \<le> j \<and> j < length tbl \<longrightarrow> a < address (tbl ! j)) \<and>
           bsearch_loop tbl a low ?mid best =
             (if m = 0 then None else Some (tbl ! (m - 1)))"
        using True gt mid "1.prems"(1,2,4,6) above
        by (intro "1.IH"(2)) simp_all
      then show ?thesis
        using True gt by (subst bsearch_loop.simps) simp
    qed
  qed
qed

lemma bsearch_split:
  assumes "sorted (map address tbl)"
  shows "\<exists>m\<le>length tbl.
           (\<forall>j<m. address (tbl ! j) \<le> a) \<and>
           (\<forall>j. m \<le> j \<and> j < length tbl \<longrightarrow> a < address (tbl ! j)) \<and>
           bsearch_loop tbl a 0 (length tbl) None = (if m = 0 then None else Some (tbl ! (m - 1)))"
  by (rule bsearch_loop_split[OF assms]) auto


lemma bsearch_floor_at:
  assumes srt: "sorted (map address tbl)"
    and i: "i < length tbl"
    and le: "address (tbl ! i) \<le> a"
    and next_gt: "Suc i < length tbl \<Longrightarrow> a < address (tbl ! Suc i)"
  shows "bsearch_loop tbl a 0 (length tbl) None = Some (tbl ! i)"
proof -
  from bsearch_split[OF srt, of a] obtain m where m: "m \<le> length tbl"
    and below: "\<forall>j<m. address (tbl ! j) \<le> a"
    and above: "\<forall>j. m \<le> j \<and> j < length tbl \<longrightarrow> a < address (tbl ! j)"
    and res: "bsearch_loop tbl a 0 (length tbl) None = (if m = 0 then None else Some (tbl ! (m - 1)))"
    by blast
  have "i < m"
  proof (rule ccontr)
    assume "\<not> i < m"
    then have "a < address (tbl ! i)" using above i by simp
    then show False using le by simp
  qed
  moreover have "m \<le> Suc i"
  proof (rule ccontr)
    assume "\<not> m \<le> Suc i"
    then have "Suc i < m" by simp
    then have "address (tbl ! Suc i) \<le> a" "Suc i < length tbl" using below m by auto
    then show False using next_gt by simp
  qed
  ultimately have "m = Suc i" by simp
  then show ?thesis using res by simp
qed

lemma bsearch_result:
  assumes srt: "sorted (map address tbl)"
    and res: "bsearch_loop tbl a 0 (length tbl) None = Some e"
  shows "e \<in> set tbl \<and> address e \<le> a \<and> (\<forall>e'\<in>set tbl. address e' \<le> a \<longrightarrow> address e' \<le> address e)"
proof -
  from bsearch_split[OF srt, of a] obtain m where m: "m \<le> length tbl"
    and below: "\<forall>j<m. address (tbl ! j) \<le> a"
    and above: "\<forall>j. m \<le> j \<and> j < length tbl \<longrightarrow> a < address (tbl ! j)"
    and res': "bsearch_loop tbl a 0 (length tbl) None = (if m = 0 then None else Some (tbl ! (m - 1)))"
    by blast
  from res res' have m0: "m \<noteq> 0" and e: "e = tbl ! (m - 1)"
    by (auto split: if_splits)
  have lt: "m - 1 < length tbl" using m m0 by simp
  have "e \<in> set tbl" using e lt by simp
  moreover have "address e \<le> a" using below e m0 by simp
  moreover have "\<forall>e'\<in>set tbl. address e' \<le> a \<longrightarrow> address e' \<le> address e"
  proof (intro ballI impI)
    fix e' assume "e' \<in> set tbl" and le: "address e' \<le> a"
    then obtain j where j: "j < length tbl" "e' = tbl ! j"
      by (auto simp: in_set_conv_nth)
    have "j < m"
    proof (rule ccontr)
      assume "\<not> j < m"
      then have "a < address (tbl ! j)" using above j by simp
      then show False using le j by simp
    qed
    then have "address (tbl ! j) \<le> address (tbl ! (m - 1))"
      using sorted_address_mono[OF srt, of j "m - 1"] lt by simp
    then show "address e' \<le> address e" using j e by simp
  qed
  ultimately show ?thesis by blast
qed

lemma bsearch_none:
  assumes srt: "sorted (map address tbl)"
    and res: "bsearch_loop tbl a 0 (length tbl) None = None"
  shows "\<forall>e\<in>set tbl. a < address e"
proof -
  from bsearch_split[OF srt, of a] obtain m where m: "m \<le> length tbl"
    and above: "\<forall>j. m \<le> j \<and> j < length tbl \<longrightarrow> a < address (tbl ! j)"
    and res': "bsearch_loop tbl a 0 (length tbl) None = (if m = 0 then None else Some (tbl ! (m - 1)))"
    by blast
  from res res' have "m = 0" by (auto split: if_splits)
  then show ?thesis using above by (auto simp: in_set_conv_nth)
qed


section \<open>The states between calls\<close>

lemma table_entries_inv:
  assumes "globals_inv st" and "g_symbol_table st = Some blk"
  shows "table_entries st = block_data blk" and "g_symbol_count st = length (block_data blk)"
    and "sorted (map address (block_data blk))" and "g_initialized st \<noteq> 0"
  using assms by (simp_all add: globals_inv_def table_entries_def)

lemma table_entries_None:
  "g_symbol_table st = None \<Longrightarrow> table_entries st = []"
  by (simp add: table_entries_def)

lemma parse_coff_symbols_table:
  assumes "parse_coff_symbols env st = Some (r, st')"
    and "g_symbol_table st = None" and "g_symbol_count st = 0"
  shows "g_initialized st' = g_initialized st \<and>
         g_lock_initialized st' = g_lock_initialized st \<and>
         (case g_symbol_table st' of
            None \<Rightarrow> g_symbol_count st' = 0
          | Some blk \<Rightarrow> g_symbol_count st' = length (block_data blk) \<and>
                        sorted (map address (block_data blk)))"
  using assms
  by (auto simp: parse_coff_symbols_def Let_def qsort_symbols_def split: if_splits option.splits)

lemma init_lock_ready:
  "g_lock_initialized st \<noteq> 0 \<Longrightarrow> init_lock st = st"
  by (simp add: init_lock_def)

lemma ensure_initialized_ready:
  assumes "globals_inv st" and "g_initialized st \<noteq> 0"
  shows "ensure_initialized env st = Some (0, st)"
  using assms by (simp add: ensure_initialized_def init_lock_def globals_inv_def)

lemma ensure_initialized_fresh:
  assumes "g_initialized st = 0"
  shows "ensure_initialized env st =
         (case parse_coff_symbols env (init_lock st) of
            None \<Rightarrow> None
          | Some (r, st') \<Rightarrow> Some (r, st'\<lparr>g_initialized := 1\<rparr>))"
  using assms by (simp add: ensure_initialized_def init_lock_def)

lemma ensure_initialized_inv:
  assumes inv: "globals_inv st" and run: "ensure_initialized env st = Some (r, st')"
  shows "globals_inv st' \<and> g_initialized st' \<noteq> 0"
proof (cases "g_initialized st = 0")
  case False
  then show ?thesis
    using ensure_initialized_ready[OF inv False, of env] run inv by simp
next
  case True
  then have none: "g_symbol_table (init_lock st) = None" "g_symbol_count (init_lock st) = 0"
    using inv by (auto simp: globals_inv_def init_lock_def split: option.splits)
  from run True obtain st'' where p: "parse_coff_symbols env (init_lock st) = Some (r, st'')"
    and st': "st' = st''\<lparr>g_initialized := 1\<rparr>"
    by (auto simp: ensure_initialized_fresh split: option.splits)
  have "g_lock_initialized st'' \<noteq> 0"
    using parse_coff_symbols_table[OF p none] by (simp add: init_lock_def)
  then show ?thesis
    using parse_coff_symbols_table[OF p none] st'
    by (auto simp: globals_inv_def split: option.splits)
qed


lemma initial_globals_inv: "globals_inv initial_globals"
  by (simp add: globals_inv_def initial_globals_def)

lemma find_symbol_Some:
  assumes inv: "globals_inv st" and found: "find_symbol st q = Some e"
  shows "e \<in> set (table_entries st) \<and> address e \<le> q \<and> q - address e < 0x100000 \<and>
         (\<forall>e'\<in>set (table_entries st). address e' \<le> q \<longrightarrow> address e' \<le> address e)"
proof -
  from found obtain blk where blk: "g_symbol_table st = Some blk"
    by (auto simp: find_symbol_def split: option.splits)
  note t = table_entries_inv[OF inv blk]
  from found blk t(2) have b: "bsearch_loop (block_data blk) q 0 (length (block_data blk)) None = Some e"
    and near: "q - address e < 0x100000"
    by (auto simp: find_symbol_def split: option.splits if_splits)
  show ?thesis
    using bsearch_result[OF t(3) b] near t(1) by simp
qed

lemma find_symbol_at:
  assumes inv: "globals_inv st"
    and i: "i < length (table_entries st)"
    and le: "address (table_entries st ! i) \<le> q"
    and next_gt: "Suc i < length (table_entries st) \<Longrightarrow> q < address (table_entries st ! Suc i)"
    and near: "q - address (table_entries st ! i) < 0x100000"
  shows "find_symbol st q = Some (table_entries st ! i)"
proof -
  from i obtain blk where blk: "g_symbol_table st = Some blk"
    by (auto simp: table_entries_def split: option.splits)
  note t = table_entries_inv[OF inv blk]
  have "bsearch_loop (block_data blk) q 0 (length (block_data blk)) None = Some (block_data blk ! i)"
    using i le next_gt unfolding t(1) by (intro bsearch_floor_at[OF t(3)]) simp_all
  moreover have "block_data blk \<noteq> []"
    using i t(1) by auto
  ultimately show ?thesis
    using blk t(1,2) i near by (simp add: find_symbol_def)
qed

lemma find_symbol_far:
  assumes inv: "globals_inv st"
    and e: "e \<in> set (table_entries st)" "address e \<le> q"
    and floor: "\<forall>e'\<in>set (table_entries st). address e' \<le> q \<longrightarrow> address e' \<le> address e"
    and far: "0x100000 \<le> q - address e"
  shows "find_symbol st q = None"
proof (rule ccontr)
  assume "find_symbol st q \<noteq> None"
  then obtain f where f: "find_symbol st q = Some f" by auto
  from find_symbol_Some[OF inv f] have fin: "f \<in> set (table_entries st)" "address f \<le> q"
    and near: "q - address f < 0x100000"
    and ffloor: "\<forall>e'\<in>set (table_entries st). address e' \<le> q \<longrightarrow> address e' \<le> address f"
    by auto
  have "address e \<le> address f" using ffloor e by blast
  moreover have "address f \<le> address e" using floor fin by blast
  ultimately have "address f = address e" by simp
  then show False using near far by simp
qed


section \<open>Copying the name out\<close>

lemma take_takeWhile_le:
  "n \<le> length (takeWhile P xs) \<Longrightarrow> take n (takeWhile P xs) = take n xs"
proof (induction xs arbitrary: n)
  case Nil
  then show ?case by simp
next
  case (Cons x xs)
  then show ?case by (cases n) (auto split: if_splits)
qed

lemma write_name_eq:
  assumes n: "n \<le> c_strlen nm" and b: "n < length b"
  shows "write_name b nm n = take n (c_string nm) @ NUL # drop (Suc n) b"
proof -
  have len: "n \<le> length (takeWhile (\<lambda>c. c \<noteq> NUL) nm)"
    using n by (simp add: c_strlen_def)
  have tk: "take n nm = take n (c_string nm)"
    using take_takeWhile_le[OF len] by (simp add: c_string_def)
  have lc: "min (length (c_string nm)) n = n"
    using len by (simp add: c_string_def)
  have "drop n b = b ! n # drop (Suc n) b"
    using b by (simp add: Cons_nth_drop_Suc)
  then show ?thesis
    unfolding write_name_def tk by (simp add: list_update_append lc)
qed

lemma c_string_prefix_NUL:
  "c_string (take n (c_string nm) @ NUL # rest) = take n (c_string nm)"
proof -
  let ?p = "take n (takeWhile (\<lambda>c. c \<noteq> NUL) nm)"
  have ok: "c \<noteq> NUL" if "c \<in> set ?p" for c
    using set_takeWhileD[OF in_set_takeD[OF that]] by simp
  have "takeWhile (\<lambda>c. c \<noteq> NUL) (?p @ NUL # rest) =
        ?p @ takeWhile (\<lambda>c. c \<noteq> NUL) (NUL # rest)"
    by (rule takeWhile_append2) (rule ok)
  also have "\<dots> = ?p"
    by simp
  finally show ?thesis
    by (simp only: c_string_def)
qed

lemma write_name_props:
  assumes n: "n \<le> c_strlen nm" and b: "n < length b"
  shows "length (write_name b nm n) = length b"
    and "write_name b nm n ! n = NUL"
    and "c_string (write_name b nm n) = take n (c_string nm)"
    and "take n (write_name b nm n) = take n nm"
    and "drop (Suc n) (write_name b nm n) = drop (Suc n) b"
proof -
  have ln: "length (take n (c_string nm)) = n"
    using n by (simp add: c_string_def c_strlen_def)
  show "length (write_name b nm n) = length b"
    using b ln by (simp add: write_name_eq[OF n b])
  show "write_name b nm n ! n = NUL"
    using ln by (simp add: write_name_eq[OF n b] nth_append)
  show "c_string (write_name b nm n) = take n (c_string nm)"
    by (simp add: write_name_eq[OF n b] c_string_prefix_NUL)
  show "take n (write_name b nm n) = take n nm"
    using ln take_takeWhile_le[of n "\<lambda>c. c \<noteq> NUL" nm] n
      length_takeWhile_le[of "\<lambda>c. c \<noteq> NUL" nm]
    by (simp add: write_name_eq[OF n b] c_string_def c_strlen_def)
  show "drop (Suc n) (write_name b nm n) = drop (Suc n) b"
    using ln by (simp add: write_name_eq[OF n b])
qed


section \<open>The lookup entry point\<close>

text \<open>
  Claim C9. Called with a \<^verbatim>\<open>NULL\<close> cursor, a \<^verbatim>\<open>NULL\<close> buffer or a buffer length
  of zero, \<^verbatim>\<open>unw_get_proc_name_windows\<close> returns \<^verbatim>\<open>UNW_EUNSPEC\<close> at once: whatever
  the executable looks like, the globals (the initialised flag among them), the buffer
  and \<^verbatim>\<open>*offp\<close> are as they were.
\<close>

theorem invalid_arguments_rejected:
  assumes "cursor args = None \<or> buf args = None \<or> buf_len args = 0"
  shows "unw_get_proc_name_windows env st args =
         Some \<lparr>ret = UNW_EUNSPEC, globals_after = st, buf_after = buf args,
               offp_after = offp args\<rparr>"
  using assms
  by (auto simp: unw_get_proc_name_windows_def name_not_resolved_def split: option.splits)

text \<open>
  Claim C6. With valid arguments and a cursor whose instruction pointer can be read,
  once \<^verbatim>\<open>ensure_initialized\<close> has returned 0: when the greatest indexed address not
  above the query lies \<open>0x100000\<close> (1 MiB) or more below it, the call returns
  \<^verbatim>\<open>UNW_ENOINFO\<close>, which is neither 0 nor \<^verbatim>\<open>UNW_EUNSPEC\<close>, and writes nothing. A
  query more than the threshold past the last symbol is the case where that greatest
  address is the last entry's.
\<close>

theorem far_query_is_a_miss:
  assumes inv: "globals_inv st"
    and init: "ensure_initialized env st = Some (0, st')"
    and args: "cursor args = Some cur" "get_reg_result cur = 0" "reg_ip cur = q"
      "buf args = Some b" "buf_len args \<noteq> 0"
    and e: "e \<in> set (table_entries st')" "address e \<le> q"
    and floor: "\<forall>e'\<in>set (table_entries st'). address e' \<le> q \<longrightarrow> address e' \<le> address e"
    and far: "0x100000 \<le> q - address e"
  shows "unw_get_proc_name_windows env st args =
         Some \<lparr>ret = UNW_ENOINFO, globals_after = st', buf_after = buf args,
               offp_after = offp args\<rparr> \<and>
         UNW_ENOINFO \<noteq> 0 \<and> UNW_ENOINFO \<noteq> UNW_EUNSPEC"
proof -
  have inv': "globals_inv st'"
    using ensure_initialized_inv[OF inv init] by simp
  have "find_symbol st' q = None"
    by (rule find_symbol_far[OF inv' e floor far])
  then show ?thesis
    using init args
    by (simp add: unw_get_proc_name_windows_def name_not_resolved_def
        UNW_ENOINFO_def UNW_EUNSPEC_def)
qed

text \<open>
  Claim C7. For an executable that can be opened and mapped and has the two signatures,
  whose header gives zero for the symbol-table offset or for the number of symbols,
  \<^verbatim>\<open>unw_windows_sym_init\<close> on uninitialised globals returns 0 and leaves no table
  and a count of zero; every later lookup with valid arguments and a readable
  instruction pointer returns \<^verbatim>\<open>UNW_ENOINFO\<close> and leaves the globals as they are, so
  the same holds for the lookup after it.
\<close>

theorem stripped_image_initializes_empty:
  assumes hdr: "PointerToSymbolTable env = 0 \<or> NumberOfSymbols env = 0"
    and access: "path_len env \<noteq> 0" "path_len env < MAX_PATH" "file_opened env"
      "mapping_created env" "view_mapped env"
      "e_magic env = IMAGE_DOS_SIGNATURE" "nt_Signature env = IMAGE_NT_SIGNATURE"
    and inv: "globals_inv st0" and fresh: "g_initialized st0 = 0"
  shows "\<exists>st. unw_windows_sym_init env st0 = Some (0, st) \<and>
              g_symbol_table st = None \<and> g_symbol_count st = 0 \<and> table_entries st = [] \<and>
              (\<forall>env' args cur b.
                  cursor args = Some cur \<and> get_reg_result cur = 0 \<and>
                  buf args = Some b \<and> buf_len args \<noteq> 0 \<longrightarrow>
                  unw_get_proc_name_windows env' st args =
                  Some \<lparr>ret = UNW_ENOINFO, globals_after = st, buf_after = buf args,
                        offp_after = offp args\<rparr>) \<and>
              UNW_ENOINFO \<noteq> 0 \<and> UNW_ENOINFO \<noteq> UNW_EUNSPEC"
proof -
  let ?st = "(init_lock st0)\<lparr>g_runtime_base := exe_module env, g_image_base := ImageBase env,
                              g_initialized := 1\<rparr>"
  have none: "g_symbol_table st0 = None" "g_symbol_count st0 = 0"
    using inv fresh by (auto simp: globals_inv_def split: option.splits)
  have p: "parse_coff_symbols env (init_lock st0) =
           Some (0, (init_lock st0)\<lparr>g_runtime_base := exe_module env, g_image_base := ImageBase env\<rparr>)"
    using hdr access by (auto simp: parse_coff_symbols_def Let_def not_le[symmetric])
  have init: "unw_windows_sym_init env st0 = Some (0, ?st)"
    using fresh p by (simp add: unw_windows_sym_init_def ensure_initialized_fresh)
  have tbl: "g_symbol_table ?st = None" "g_symbol_count ?st = 0"
    using none by (simp_all add: init_lock_def)
  have inv': "globals_inv ?st" "g_initialized ?st \<noteq> 0"
    using ensure_initialized_inv[OF inv init[unfolded unw_windows_sym_init_def]] by simp_all
  have miss: "unw_get_proc_name_windows env' ?st args =
                  Some \<lparr>ret = UNW_ENOINFO, globals_after = ?st, buf_after = buf args,
                        offp_after = offp args\<rparr>"
    if "cursor args = Some cur \<and> get_reg_result cur = 0 \<and> buf args = Some b \<and> buf_len args \<noteq> 0"
    for env' args cur b
    using that ensure_initialized_ready[OF inv', of env'] tbl(1)
    by (simp add: unw_get_proc_name_windows_def name_not_resolved_def find_symbol_def)
  show ?thesis
  proof (intro exI[of _ ?st] conjI allI impI)
    show "unw_windows_sym_init env st0 = Some (0, ?st)" by (rule init)
    show "g_symbol_table ?st = None" by (rule tbl)
    show "g_symbol_count ?st = 0" by (rule tbl)
    show "table_entries ?st = []" by (rule table_entries_None[OF tbl(1)])
  next
    fix env' :: pe_env and args :: proc_name_args and cur b
    assume "cursor args = Some cur \<and> get_reg_result cur = 0 \<and>
            buf args = Some b \<and> buf_len args \<noteq> 0"
    then show "unw_get_proc_name_windows env' ?st args =
                  Some \<lparr>ret = UNW_ENOINFO, globals_after = ?st, buf_after = buf args,
                        offp_after = offp args\<rparr>"
      by (rule miss)
  next
    show "UNW_ENOINFO \<noteq> 0" by (simp add: UNW_ENOINFO_def)
    show "UNW_ENOINFO \<noteq> UNW_EUNSPEC" by (simp add: UNW_ENOINFO_def UNW_EUNSPEC_def)
  qed
qed

section \<open>The address of an entry\<close>

lemma section_index:
  fixes w :: "16 word"
  assumes "0 < sint w"
  shows "unat (w - 1) = nat (sint w - 1)"
proof -
  have "sint w < 2 ^ 16"
    using sint_lt[of w] by simp
  then have "take_bit 16 (sint w) = sint w"
    using assms by (intro take_bit_int_eq_self) simp_all
  then have su: "uint w = sint w"
    using uint_sint[of w] by simp
  have uw: "unat w = nat (sint w)"
    unfolding su[symmetric] by (rule unat_eq_nat_uint)
  have "w \<noteq> 0" using assms by auto
  then have "unat (w - 1) = unat w - 1" by (rule unat_minus_one)
  also have "\<dots> = nat (sint w) - 1" by (simp only: uw)
  also have "\<dots> = nat (sint w - 1)" using assms by linarith
  finally show ?thesis .
qed

lemma function_like_section:
  assumes "function_like env r"
  shows "sections env (unat (SectionNumber r - 1)) = section_of env r"
proof -
  have "0 < sint (SectionNumber r)"
    using assms by (auto simp: function_like_def is_text_symbol_def split: if_splits)
  then show ?thesis
    by (simp add: section_of_def section_index)
qed

lemma ucast_sum_fits:
  fixes x y :: "32 word"
  assumes "unat x + unat y < 2 ^ 32"
  shows "(ucast (x + y) :: 64 word) = ucast x + ucast y"
proof -
  have u: "unat (ucast w :: 64 word) = unat w" for w :: "32 word"
    using unsigned_less[of w, where 'a=nat]
    by (simp add: unsigned_ucast_eq take_bit_nat_eq_self)
  have s: "unat (x + y) = unat x + unat y"
    using assms by (simp add: unat_word_ariths)
  have "unat (ucast x + ucast y :: 64 word) = (unat x + unat y) mod 2 ^ 64"
    by (simp add: unat_word_ariths u)
  also have "\<dots> = unat x + unat y"
    using assms by (intro mod_less) simp
  finally show ?thesis
    by (simp add: word_unat_eq_iff u s)
qed

lemma fill_loop_entries:
  assumes "fill_loop env rb func_count i tbl = Some out"
  shows "\<forall>e\<in>set out. e \<in> set tbl \<or>
           (\<exists>k<unat (NumberOfSymbols env).
               qualifies env (symbols env k) \<and> e = make_entry env rb (symbols env k))"
proof (rule fill_loop.raw_induct[where P = "\<lambda>env rb func_count i tbl out.
          \<forall>e\<in>set out. e \<in> set tbl \<or>
           (\<exists>k<unat (NumberOfSymbols env).
               qualifies env (symbols env k) \<and> e = make_entry env rb (symbols env k))",
        OF _ assms], goal_cases)
  case (1 loop env rb func_count i tbl out)
  show ?case
  proof (cases "i < NumberOfSymbols env \<and> length tbl < func_count")
    case False
    then show ?thesis using 1(2) by auto
  next
    case True
    then have lt: "unat i < unat (NumberOfSymbols env)"
      by (simp add: word_less_nat_alt)
    show ?thesis
    proof (cases "qualifies env (symbols env (unat i))")
      case False
      then have "loop env rb func_count
                   (i + ucast (NumberOfAuxSymbols (symbols env (unat i))) + 1) tbl = Some out"
        using 1(2) True by (auto simp: qualifies_def function_like_def split: if_splits)
      then show ?thesis by (rule 1(1))
    next
      case q: True
      then have "loop env rb func_count
                   (i + ucast (NumberOfAuxSymbols (symbols env (unat i))) + 1)
                   (tbl @ [make_entry env rb (symbols env (unat i))]) = Some out"
        using 1(2) True by (auto simp: qualifies_def function_like_def split: if_splits)
      from 1(1)[OF this] show ?thesis
        using q lt by auto
    qed
  qed
qed

text \<open>
  Claim C5. Every entry of the table \<^verbatim>\<open>parse_coff_symbols\<close> has built comes from a
  qualifying record \<open>symbols env k\<close> of the image, and its address is the runtime base
  plus the sum of the virtual address of the section the record's 1-based
  \<^verbatim>\<open>SectionNumber\<close> refers to and the record's \<^verbatim>\<open>Value\<close>. The code forms that sum in
  32 bits; where it does not exceed 32 bits (as for every address inside a loadable
  image, whose size is a \<^verbatim>\<open>DWORD\<close>), the address is base + virtual address + value.
\<close>

theorem entry_address_translation:
  assumes parse: "parse_coff_symbols env st = Some (r, st')"
    and before: "g_symbol_table st = None"
    and e: "e \<in> set (table_entries st')"
  shows "\<exists>k<unat (NumberOfSymbols env).
           qualifies env (symbols env k) \<and>
           g_runtime_base st' = exe_module env \<and>
           address e =
             g_runtime_base st' +
             ucast (VirtualAddress (section_of env (symbols env k)) + Value (symbols env k)) \<and>
           (unat (VirtualAddress (section_of env (symbols env k))) + unat (Value (symbols env k))
              < 2 ^ 32 \<longrightarrow>
            address e =
              g_runtime_base st' + ucast (VirtualAddress (section_of env (symbols env k)))
                + ucast (Value (symbols env k)))"
proof -
  from e obtain blk where blk: "g_symbol_table st' = Some blk"
    by (cases "g_symbol_table st'") (auto simp: table_entries_def)
  from parse before blk obtain n tbl where
    fill: "fill_loop env (exe_module env) n 0 [] = Some tbl"
    and st': "g_runtime_base st' = exe_module env" "g_symbol_count st' = length tbl"
      "block_data blk = qsort_symbols tbl"
    by (auto simp: parse_coff_symbols_def Let_def split: if_splits option.splits)
  have "e \<in> set tbl"
    using e blk st' by (simp add: table_entries_def qsort_symbols_def)
  with fill_loop_entries[OF fill] obtain k where k: "k < unat (NumberOfSymbols env)"
    and q: "qualifies env (symbols env k)" and mk: "e = make_entry env (exe_module env) (symbols env k)"
    by auto
  have sec: "sections env (unat (SectionNumber (symbols env k) - 1)) = section_of env (symbols env k)"
    using q by (intro function_like_section) (simp add: qualifies_def)
  have a: "address e = exe_module env +
             ucast (VirtualAddress (section_of env (symbols env k)) + Value (symbols env k))"
    using mk sec by (simp add: make_entry_def symbol_rva_def)
  show ?thesis
    using k q a st'(1) by (intro exI[of _ k]) (simp add: ucast_sum_fits add.assoc)
qed


section \<open>The table and the image\<close>

text \<open>
  A long name is read from the string table up to the first NUL, at most 255 characters.
  The entries of a table come from qualifying records of the image, and while the index
  cannot wrap, a parse that returns 0 on an image with a symbol table leaves the index
  of the image.
\<close>

lemma read_cstring_eq:
  "read_cstring mem off n = takeWhile (\<lambda>c. c \<noteq> NUL) (map mem [off..<off + n])"
proof (induction n arbitrary: off)
  case 0
  then show ?case by simp
next
  case (Suc n)
  have "[off..<off + Suc n] = off # [Suc off..<Suc off + n]"
    by (simp add: upt_conv_Cons)
  then show ?case
    using Suc[of "Suc off"] by simp
qed


lemma parse_builds_image_index:
  assumes fits: "index_fits env"
    and hdr: "PointerToSymbolTable env \<noteq> 0"
    and parse: "parse_coff_symbols env st = Some (0, st')"
    and before: "g_symbol_table st = None" "g_symbol_count st = 0"
  shows "table_entries st' = image_index env"
proof -
  let ?prims = "primary_records (raw_records env)"
  let ?n = "length (filter (function_like env) ?prims)"
  let ?tbl = "map (make_entry env (exe_module env)) (filter (qualifies env) ?prims)"
  have c: "count_loop env 0 0 = Some ?n"
    using count_loop_char[OF fits, of 0 0] by simp
  have f: "fill_loop env (exe_module env) ?n 0 [] = Some ?tbl"
    using fill_loop_char[OF fits, of "[]" 0 ?n "exe_module env"] by simp
  show ?thesis
  proof (cases "NumberOfSymbols env = 0")
    case True
    then have "raw_records env = []"
      by (simp add: raw_records_def)
    then have "image_index env = []"
      by (simp add: image_index_def)
    moreover have "g_symbol_table st' = None"
      using parse before True by (auto simp: parse_coff_symbols_def Let_def split: if_splits)
    ultimately show ?thesis
      by (simp add: table_entries_None)
  next
    case some: False
    show ?thesis
    proof (cases "?n = 0")
      case True
      then have "filter (function_like env) ?prims = []"
        by simp
      then have "filter (qualifies env) ?prims = []"
        by (auto simp: filter_empty_conv qualifies_def)
      then have "image_index env = []"
        by (simp add: image_index_def)
      moreover have "g_symbol_table st' = None"
        using parse before True c
        by (auto simp: parse_coff_symbols_def Let_def split: if_splits)
      ultimately show ?thesis
        by (simp add: table_entries_None)
    next
      case False
      have "g_symbol_table st' = Some \<lparr>block_len = ?n, block_data = qsort_symbols ?tbl\<rparr> \<and>
            g_symbol_count st' = length ?tbl"
        using parse hdr some False c f
        by (auto simp: parse_coff_symbols_def Let_def split: if_splits)
      then show ?thesis
        by (simp add: table_entries_def image_index_def qsort_symbols_def)
    qed
  qed
qed

lemma init_builds_image_index:
  assumes fits: "index_fits env"
    and hdr: "PointerToSymbolTable env \<noteq> 0"
    and inv: "globals_inv st0" and fresh: "g_initialized st0 = 0"
    and init: "ensure_initialized env st0 = Some (0, st)"
  shows "table_entries st = image_index env"
proof -
  have none: "g_symbol_table (init_lock st0) = None" "g_symbol_count (init_lock st0) = 0"
    using inv fresh by (auto simp: globals_inv_def init_lock_def split: option.splits)
  from init fresh obtain st_p where p: "parse_coff_symbols env (init_lock st0) = Some (0, st_p)"
    and st: "st = st_p\<lparr>g_initialized := 1\<rparr>"
    by (auto simp: ensure_initialized_fresh split: option.splits)
  have "table_entries st = table_entries st_p"
    by (simp add: st table_entries_def split: option.splits)
  then show ?thesis
    using parse_builds_image_index[OF fits hdr p none] by simp
qed

section \<open>Lookups that return a name\<close>

lemma resolve_success:
  assumes run: "unw_get_proc_name_windows env st args = Some res" and ok: "ret res = 0"
  shows "\<exists>cur b st' symb.
           cursor args = Some cur \<and> buf args = Some b \<and> buf_len args \<noteq> 0 \<and>
           ensure_initialized env st = Some (0, st') \<and>
           get_reg_result cur = 0 \<and> reg_ip cur \<noteq> 0 \<and>
           find_symbol st' (reg_ip cur) = Some symb \<and>
           res = copy_name_out st' args b (reg_ip cur) symb"
proof (cases "cursor args")
  case None
  then show ?thesis
    using run ok by (auto simp: unw_get_proc_name_windows_def name_not_resolved_def UNW_EUNSPEC_def)
next
  case cur: (Some cur)
  show ?thesis
  proof (cases "buf args")
    case None
    then show ?thesis
      using run ok cur
      by (auto simp: unw_get_proc_name_windows_def name_not_resolved_def UNW_EUNSPEC_def)
  next
    case b: (Some b)
    show ?thesis
    proof (cases "buf_len args = 0")
      case True
      then show ?thesis
        using run ok cur b
        by (auto simp: unw_get_proc_name_windows_def name_not_resolved_def UNW_EUNSPEC_def)
    next
      case len: False
      from run cur b len obtain r st' where init: "ensure_initialized env st = Some (r, st')"
        by (cases "ensure_initialized env st") (auto simp: unw_get_proc_name_windows_def)
      have r: "r = 0"
        using run ok cur b len init
        by (auto simp: unw_get_proc_name_windows_def name_not_resolved_def UNW_EUNSPEC_def
            split: if_splits)
      have reg: "get_reg_result cur = 0" "reg_ip cur \<noteq> 0"
        using run ok cur b len init r
        by (auto simp: unw_get_proc_name_windows_def name_not_resolved_def UNW_EUNSPEC_def
            UNW_ENOINFO_def split: if_splits)
      from run ok cur b len init r reg obtain symb
        where f: "find_symbol st' (reg_ip cur) = Some symb"
        by (cases "find_symbol st' (reg_ip cur)")
           (auto simp: unw_get_proc_name_windows_def name_not_resolved_def UNW_ENOINFO_def)
      have "res = copy_name_out st' args b (reg_ip cur) symb"
        using run cur b len init r reg f by (simp add: unw_get_proc_name_windows_def)
      then show ?thesis
        using cur b len init r reg f by simp
    qed
  qed
qed

lemma copy_name_out_fields:
  "ret (copy_name_out st args b ip symb) = 0"
  "globals_after (copy_name_out st args b ip symb) = st"
  "buf_after (copy_name_out st args b ip symb) =
     Some (write_name b (name symb) (min (c_strlen (name symb)) (buf_len args - 1)))"
  "offp_after (copy_name_out st args b ip symb) =
     map_option (\<lambda>old. ip - address symb) (offp args)"
  if "buf_len args \<noteq> 0"
proof -
  have n: "(if buf_len args \<le> c_strlen (name symb) then buf_len args - 1 else c_strlen (name symb)) =
        min (c_strlen (name symb)) (buf_len args - 1)"
    using that by (simp add: min_def, arith)
  show "ret (copy_name_out st args b ip symb) = 0"
    "globals_after (copy_name_out st args b ip symb) = st"
    by (simp_all add: copy_name_out_def Let_def)
  show "buf_after (copy_name_out st args b ip symb) =
     Some (write_name b (name symb) (min (c_strlen (name symb)) (buf_len args - 1)))"
    by (simp add: copy_name_out_def Let_def n)
  show "offp_after (copy_name_out st args b ip symb) =
     map_option (\<lambda>old. ip - address symb) (offp args)"
    by (cases "offp args") (simp_all add: copy_name_out_def Let_def)
qed

text \<open>
  Claim C10. When \<^verbatim>\<open>unw_get_proc_name_windows\<close> returns 0 for a buffer that has the
  \<open>L = buf_len\<close> bytes the caller announced (\<open>L \<ge> 1\<close>), it has copied
  \<open>n = min (strlen name) (L - 1)\<close> characters of the name of the entry found: the
  buffer holds a NUL at index \<open>n\<close>, the string in it is the first \<open>n\<close> characters of
  the stored name, \<open>n + 1 \<le> L\<close>, and the bytes after the NUL are untouched. A name that
  does not fit is cut, and the result is still 0: the same call with any other buffer of
  nonzero length, however short, returns 0 as well.
\<close>

theorem name_copy_truncates:
  assumes run: "unw_get_proc_name_windows env st args = Some res" and ok: "ret res = 0"
    and b: "buf args = Some b" and len: "buf_len args \<le> length b"
  shows "(\<exists>cur symb b' n.
           cursor args = Some cur \<and>
           find_symbol (globals_after res) (reg_ip cur) = Some symb \<and>
           buf_after res = Some b' \<and>
           n = min (c_strlen (name symb)) (buf_len args - 1) \<and>
           1 \<le> buf_len args \<and> n + 1 \<le> buf_len args \<and>
           length b' = length b \<and>
           b' ! n = NUL \<and>
           c_string b' = take n (c_string (name symb)) \<and>
           length (c_string b') = n \<and>
           take n b' = take n (name symb) \<and>
           drop (Suc n) b' = drop (Suc n) b) \<and>
         (\<forall>b2 len2. len2 \<noteq> 0 \<longrightarrow>
            (\<exists>res2. unw_get_proc_name_windows env st (args\<lparr>buf := Some b2, buf_len := len2\<rparr>) =
                      Some res2 \<and> ret res2 = 0))"
proof -
  from resolve_success[OF run ok] b obtain cur st' symb where
    cur: "cursor args = Some cur" and nz: "buf_len args \<noteq> 0"
    and init: "ensure_initialized env st = Some (0, st')"
    and reg: "get_reg_result cur = 0" "reg_ip cur \<noteq> 0"
    and f: "find_symbol st' (reg_ip cur) = Some symb"
    and res: "res = copy_name_out st' args b (reg_ip cur) symb"
    by auto
  let ?n = "min (c_strlen (name symb)) (buf_len args - 1)"
  let ?b' = "write_name b (name symb) ?n"
  have n1: "?n \<le> c_strlen (name symb)" by simp
  have n2: "?n < length b" using nz len by simp
  note w = write_name_props[OF n1 n2]
  have l: "length (c_string ?b') = ?n"
    using w(3) n1 by (simp add: c_string_def c_strlen_def)
  have any: "\<exists>res2. unw_get_proc_name_windows env st (args\<lparr>buf := Some b2, buf_len := len2\<rparr>) =
                      Some res2 \<and> ret res2 = 0"
    if "len2 \<noteq> 0" for b2 len2
    using that cur init reg f
    by (simp add: unw_get_proc_name_windows_def copy_name_out_def Let_def)
  have "\<exists>cur symb b' n.
           cursor args = Some cur \<and>
           find_symbol (globals_after res) (reg_ip cur) = Some symb \<and>
           buf_after res = Some b' \<and>
           n = min (c_strlen (name symb)) (buf_len args - 1) \<and>
           1 \<le> buf_len args \<and> n + 1 \<le> buf_len args \<and>
           length b' = length b \<and>
           b' ! n = NUL \<and>
           c_string b' = take n (c_string (name symb)) \<and>
           length (c_string b') = n \<and>
           take n b' = take n (name symb) \<and>
           drop (Suc n) b' = drop (Suc n) b"
    using cur f nz w l
    by (intro exI[of _ cur] exI[of _ symb] exI[of _ ?b'] exI[of _ ?n])
       (simp add: res copy_name_out_fields[OF nz])
  then show ?thesis
    using any by blast
qed


lemma lookup_at_floor:
  assumes inv: "globals_inv st" and ready: "g_initialized st \<noteq> 0"
    and dist: "distinct (map address (table_entries st))"
    and i: "i < length (table_entries st)"
    and q: "q = address (table_entries st ! i) \<or>
            (Suc i < length (table_entries st) \<and>
             address (table_entries st ! i) < q \<and> q < address (table_entries st ! Suc i) \<and>
             q - address (table_entries st ! i) < 0x100000)"
    and nz: "q \<noteq> 0"
    and args: "cursor args = Some cur" "get_reg_result cur = 0" "reg_ip cur = q"
      "buf args = Some b" "c_strlen (name (table_entries st ! i)) < buf_len args"
      "buf_len args \<le> length b"
  shows "\<exists>b'. unw_get_proc_name_windows env' st args =
                Some \<lparr>ret = 0, globals_after = st, buf_after = Some b',
                      offp_after = map_option (\<lambda>old. q - address (table_entries st ! i))
                                     (offp args)\<rparr> \<and>
              c_string b' = c_string (name (table_entries st ! i))"
proof -
  let ?e = "table_entries st ! i"
  let ?n = "c_strlen (name ?e)"
  have ready': "ensure_initialized env' st = Some (0, st)"
    by (rule ensure_initialized_ready[OF inv ready])
  from i obtain blk where blk: "g_symbol_table st = Some blk"
    by (cases "g_symbol_table st") (auto simp: table_entries_def)
  have srt: "sorted (map address (table_entries st))"
    using table_entries_inv[OF inv blk] by simp
  have strict: "address ?e < address (table_entries st ! Suc i)"
    if s: "Suc i < length (table_entries st)"
  proof -
    have "address ?e \<le> address (table_entries st ! Suc i)"
      using sorted_address_mono[OF srt, of i "Suc i"] s by simp
    moreover have "map address (table_entries st) ! i \<noteq> map address (table_entries st) ! Suc i"
      using nth_eq_iff_index_eq[OF dist, of i "Suc i"] s by simp
    then have "address ?e \<noteq> address (table_entries st ! Suc i)"
      using s by simp
    ultimately show ?thesis by simp
  qed
  have le: "address ?e \<le> q"
    using q by auto
  have gt: "q < address (table_entries st ! Suc i)" if "Suc i < length (table_entries st)"
    using q strict[OF that] by auto
  have near: "q - address ?e < 0x100000"
    using q by auto
  have found: "find_symbol st q = Some ?e"
    by (rule find_symbol_at[OF inv i le gt near])
  have len: "buf_len args \<noteq> 0"
    using args(5) by simp
  have res: "unw_get_proc_name_windows env' st args = Some (copy_name_out st args b q ?e)"
    using args ready' found nz len by (simp add: unw_get_proc_name_windows_def)
  have n: "min ?n (buf_len args - 1) = ?n"
    using args(5) by simp
  have "c_string (write_name b (name ?e) ?n) = take ?n (c_string (name ?e))"
    using args(5,6) by (intro write_name_props(3)) simp_all
  then have cs: "c_string (write_name b (name ?e) ?n) = c_string (name ?e)"
    by (simp add: c_string_def c_strlen_def)
  have "copy_name_out st args b q ?e =
          \<lparr>ret = 0, globals_after = st, buf_after = Some (write_name b (name ?e) ?n),
           offp_after = map_option (\<lambda>old. q - address ?e) (offp args)\<rparr>"
    using copy_name_out_fields[OF len, of st b q ?e] n
    by (intro proc_name_result.equality) simp_all
  then show ?thesis
    using res cs by (intro exI[of _ "write_name b (name ?e) ?n"]) simp
qed

text \<open>
  Claim C4, as the code has it. On an image with a symbol table whose index cannot wrap,
  a successful \<^verbatim>\<open>unw_windows_sym_init\<close> on uninitialised globals leaves exactly the
  index of the image: its qualifying symbols in ascending order of address. When their
  addresses are distinct, a lookup at a nonzero query that is the address of symbol \<open>i\<close>
  of that index, or lies strictly between the addresses of symbols \<open>i\<close> and \<open>i + 1\<close> and
  less than \<open>0x100000\<close> above symbol \<open>i\<close>, made with a readable cursor and a buffer
  large enough for the name, returns 0, leaves the name of symbol \<open>i\<close> in the buffer and,
  when \<^verbatim>\<open>offp\<close> is given, stores the query minus the address of symbol \<open>i\<close> (which
  is 0 at the exact address). The threshold itself is excluded: the code accepts a match
  only when the offset is less than \<open>0x100000\<close>.
\<close>

theorem resolve_returns_floor_symbol:
  assumes fits: "index_fits env"
    and hdr: "PointerToSymbolTable env \<noteq> 0"
    and inv: "globals_inv st0" and fresh: "g_initialized st0 = 0"
    and init: "unw_windows_sym_init env st0 = Some (0, st)"
    and dist: "distinct (map address (image_index env))"
    and i: "i < length (image_index env)"
    and q: "q = address (image_index env ! i) \<or>
            (Suc i < length (image_index env) \<and>
             address (image_index env ! i) < q \<and> q < address (image_index env ! Suc i) \<and>
             q - address (image_index env ! i) < 0x100000)"
    and nz: "q \<noteq> 0"
    and args: "cursor args = Some cur" "get_reg_result cur = 0" "reg_ip cur = q"
      "buf args = Some b" "c_strlen (name (image_index env ! i)) < buf_len args"
      "buf_len args \<le> length b"
  shows "table_entries st = image_index env \<and>
         (\<exists>b'. unw_get_proc_name_windows env' st args =
                Some \<lparr>ret = 0, globals_after = st, buf_after = Some b',
                      offp_after = map_option (\<lambda>old. q - address (image_index env ! i))
                                     (offp args)\<rparr> \<and>
              c_string b' = c_string (name (image_index env ! i)))"
proof -
  have te: "table_entries st = image_index env"
    by (rule init_builds_image_index[OF fits hdr inv fresh init[unfolded unw_windows_sym_init_def]])
  have inv': "globals_inv st" "g_initialized st \<noteq> 0"
    using ensure_initialized_inv[OF inv init[unfolded unw_windows_sym_init_def]] by simp_all
  have "\<exists>b'. unw_get_proc_name_windows env' st args =
                Some \<lparr>ret = 0, globals_after = st, buf_after = Some b',
                      offp_after = map_option (\<lambda>old. q - address (table_entries st ! i))
                                     (offp args)\<rparr> \<and>
              c_string b' = c_string (name (table_entries st ! i))"
    using dist i q nz args unfolding te[symmetric]
    by (intro lookup_at_floor[OF inv']) 
  then show ?thesis
    using te by simp
qed




text \<open>Every lookup leaves the globals in a state of the kind it found them in.\<close>

lemma unw_get_proc_name_windows_inv:
  assumes inv: "globals_inv st"
    and run: "unw_get_proc_name_windows env st args = Some res"
  shows "globals_inv (globals_after res)"
proof (cases "cursor args = None \<or> buf args = None \<or> buf_len args = 0")
  case True
  then have "res = name_not_resolved UNW_EUNSPEC st args"
    using run by (auto simp: unw_get_proc_name_windows_def split: option.splits)
  then show ?thesis
    using inv by (simp add: name_not_resolved_def)
next
  case False
  then obtain cur b where a: "cursor args = Some cur" "buf args = Some b" "buf_len args \<noteq> 0"
    by auto
  from run a obtain r st' where init: "ensure_initialized env st = Some (r, st')"
    by (cases "ensure_initialized env st") (auto simp: unw_get_proc_name_windows_def)
  have "globals_after res = st'"
    using run a init
    by (auto simp: unw_get_proc_name_windows_def name_not_resolved_def copy_name_out_def Let_def
        split: if_splits option.splits)
  then show ?thesis
    using ensure_initialized_inv[OF inv init] by simp
qed

section \<open>Repeated initialisation\<close>

text \<open>
  Once a call has gone through \<^verbatim>\<open>ensure_initialized\<close>, every later call up to the
  next cleanup returns 0 and changes nothing: \<^verbatim>\<open>parse_coff_symbols\<close> does not run again,
  and what it returned the first time is not kept.
\<close>

lemma later_init_returns_zero:
  assumes "globals_inv st" and "unw_windows_sym_init env st = Some (r, st')"
  shows "unw_windows_sym_init env' st' = Some (0, st')"
proof -
  have "globals_inv st'" "g_initialized st' \<noteq> 0"
    using ensure_initialized_inv[OF assms(1) assms(2)[unfolded unw_windows_sym_init_def]]
    by simp_all
  then show ?thesis
    unfolding unw_windows_sym_init_def by (rule ensure_initialized_ready)
qed

section \<open>The two images: instances\<close>

lemma demo_globals_inv: "globals_inv demo_globals"
  by (simp add: globals_inv_def demo_globals_def demo_table_def)

lemma demo_table_entries: "table_entries demo_globals = demo_table"
  by (simp add: table_entries_def demo_globals_def demo_table_def)

theorem invalid_arguments_rejected_witness:
  "buf ((demo_args 0x140001100)\<lparr>buf := None\<rparr>) = None \<and>
   unw_get_proc_name_windows demo_env initial_globals ((demo_args 0x140001100)\<lparr>buf := None\<rparr>) =
     Some \<lparr>ret = UNW_EUNSPEC, globals_after = initial_globals, buf_after = None,
           offp_after = Some 0\<rparr>"
  using invalid_arguments_rejected[of "(demo_args 0x140001100)\<lparr>buf := None\<rparr>" demo_env initial_globals]
  by (simp add: demo_args_def)

theorem far_query_is_a_miss_witness:
  "globals_inv demo_globals \<and>
   ensure_initialized demo_env demo_globals = Some (0, demo_globals) \<and>
   \<lparr>address = 0x140001100, name = ''main''\<rparr> \<in> set (table_entries demo_globals) \<and>
   (0x100000 :: 64 word) \<le> 0x140201100 - 0x140001100 \<and>
   unw_get_proc_name_windows demo_env demo_globals (demo_args 0x140201100) =
     Some \<lparr>ret = UNW_ENOINFO, globals_after = demo_globals,
           buf_after = Some (replicate 16 (CHR ''#'')), offp_after = Some 0\<rparr>"
proof -
  let ?e = "\<lparr>address = 0x140001100, name = ''main''\<rparr>"
  let ?args = "demo_args 0x140201100"
  have init: "ensure_initialized demo_env demo_globals = Some (0, demo_globals)"
    by (rule ensure_initialized_ready[OF demo_globals_inv]) (simp add: demo_globals_def)
  have args: "cursor ?args = Some \<lparr>get_reg_result = 0, reg_ip = 0x140201100\<rparr>"
    "get_reg_result \<lparr>get_reg_result = 0, reg_ip = 0x140201100 :: 64 word\<rparr> = 0"
    "reg_ip \<lparr>get_reg_result = 0, reg_ip = 0x140201100 :: 64 word\<rparr> = 0x140201100"
    "buf ?args = Some (replicate 16 (CHR ''#''))" "buf_len ?args \<noteq> 0"
    by (simp_all add: demo_args_def)
  have e: "?e \<in> set (table_entries demo_globals)" "address ?e \<le> 0x140201100"
    by (simp_all add: demo_table_entries demo_table_def)
  have floor: "\<forall>e'\<in>set (table_entries demo_globals).
                 address e' \<le> 0x140201100 \<longrightarrow> address e' \<le> address ?e"
    by (simp add: demo_table_entries demo_table_def)
  have far: "0x100000 \<le> 0x140201100 - address ?e"
    by simp
  show ?thesis
    using far_query_is_a_miss[OF demo_globals_inv init args e floor far]
      demo_globals_inv init e(1)
    by (simp add: demo_args_def)
qed

theorem stripped_image_initializes_empty_witness:
  "PointerToSymbolTable stripped_env = 0 \<and> globals_inv initial_globals \<and>
   unw_windows_sym_init stripped_env initial_globals = Some (0, stripped_globals) \<and>
   g_symbol_count stripped_globals = 0 \<and>
   unw_get_proc_name_windows demo_env stripped_globals (demo_args 0x140001100) =
     Some \<lparr>ret = UNW_ENOINFO, globals_after = stripped_globals,
           buf_after = Some (replicate 16 (CHR ''#'')), offp_after = Some 0\<rparr>"
proof -
  have hdr: "PointerToSymbolTable stripped_env = 0 \<or> NumberOfSymbols stripped_env = 0"
    by (simp add: stripped_env_def)
  have access: "path_len stripped_env \<noteq> 0" "path_len stripped_env < MAX_PATH"
    "file_opened stripped_env" "mapping_created stripped_env" "view_mapped stripped_env"
    "e_magic stripped_env = IMAGE_DOS_SIGNATURE" "nt_Signature stripped_env = IMAGE_NT_SIGNATURE"
    by (simp_all add: stripped_env_def demo_env_def MAX_PATH_def IMAGE_DOS_SIGNATURE_def
        IMAGE_NT_SIGNATURE_def)
  have fresh: "g_initialized initial_globals = 0"
    by (simp add: initial_globals_def)
  have run: "unw_windows_sym_init stripped_env initial_globals = Some (0, stripped_globals)"
    by code_simp
  from stripped_image_initializes_empty[OF hdr access initial_globals_inv fresh]
  obtain st where st: "unw_windows_sym_init stripped_env initial_globals = Some (0, st)"
    and cnt: "g_symbol_count st = 0"
    and miss: "\<forall>env' args cur b.
                  cursor args = Some cur \<and> get_reg_result cur = 0 \<and>
                  buf args = Some b \<and> buf_len args \<noteq> 0 \<longrightarrow>
                  unw_get_proc_name_windows env' st args =
                  Some \<lparr>ret = UNW_ENOINFO, globals_after = st, buf_after = buf args,
                        offp_after = offp args\<rparr>"
    by blast
  have eq: "st = stripped_globals"
    using st run by simp
  have "unw_get_proc_name_windows demo_env st (demo_args 0x140001100) =
          Some \<lparr>ret = UNW_ENOINFO, globals_after = st,
                buf_after = buf (demo_args 0x140001100), offp_after = offp (demo_args 0x140001100)\<rparr>"
    by (rule miss[rule_format, of "demo_args 0x140001100"
            "\<lparr>get_reg_result = 0, reg_ip = 0x140001100\<rparr>" "replicate 16 (CHR ''#'')"])
       (simp add: demo_args_def)
  then show ?thesis
    using run cnt eq initial_globals_inv by (simp add: stripped_env_def demo_args_def)
qed

theorem entry_address_translation_witness:
  "parse_coff_symbols demo_env initial_globals = Some (0, demo_parsed) \<and>
   g_symbol_table initial_globals = None \<and>
   \<lparr>address = 0x140001100, name = ''main''\<rparr> \<in> set (table_entries demo_parsed) \<and>
   qualifies demo_env (symbols demo_env 2) \<and>
   section_of demo_env (symbols demo_env 2) =
     \<lparr>VirtualAddress = 0x1000, Characteristics = 0x60000020\<rparr> \<and>
   Value (symbols demo_env 2) = 0x100 \<and>
   (\<exists>k<unat (NumberOfSymbols demo_env).
      qualifies demo_env (symbols demo_env k) \<and>
      g_runtime_base demo_parsed = exe_module demo_env \<and>
      (0x140001100 :: 64 word) =
        g_runtime_base demo_parsed +
        ucast (VirtualAddress (section_of demo_env (symbols demo_env k)) +
               Value (symbols demo_env k)) \<and>
      (unat (VirtualAddress (section_of demo_env (symbols demo_env k))) +
         unat (Value (symbols demo_env k)) < 2 ^ 32 \<longrightarrow>
       (0x140001100 :: 64 word) =
         g_runtime_base demo_parsed +
         ucast (VirtualAddress (section_of demo_env (symbols demo_env k))) +
         ucast (Value (symbols demo_env k))))"
proof -
  have parse: "parse_coff_symbols demo_env initial_globals = Some (0, demo_parsed)"
    by code_simp
  have before: "g_symbol_table initial_globals = None"
    by (simp add: initial_globals_def)
  have mem: "\<lparr>address = 0x140001100, name = ''main''\<rparr> \<in> set (table_entries demo_parsed)"
    by (simp add: table_entries_def demo_parsed_def demo_globals_def demo_table_def)
  have q: "qualifies demo_env (symbols demo_env 2)"
    by code_simp
  have sec: "section_of demo_env (symbols demo_env 2) =
     \<lparr>VirtualAddress = 0x1000, Characteristics = 0x60000020\<rparr>"
    by code_simp
  have v: "Value (symbols demo_env 2) = 0x100"
    by code_simp
  show ?thesis
    using entry_address_translation[OF parse before mem] parse before mem q sec v
    by simp
qed

lemma demo_init: "unw_windows_sym_init demo_env initial_globals = Some (0, demo_globals)"
  by code_simp

theorem name_copy_truncates_witness:
  "unw_get_proc_name_windows demo_env demo_globals
     ((demo_args 0x140001040)\<lparr>buf := Some (replicate 4 (CHR ''#'')), buf_len := 3\<rparr>) =
     Some \<lparr>ret = 0, globals_after = demo_globals,
           buf_after = Some [CHR ''h'', CHR ''e'', CHR 0x00, CHR ''#''],
           offp_after = Some 0\<rparr> \<and>
   (\<exists>cur symb b' n.
      cursor ((demo_args 0x140001040)\<lparr>buf := Some (replicate 4 (CHR ''#'')), buf_len := 3\<rparr>)
        = Some cur \<and>
      find_symbol demo_globals (reg_ip cur) = Some symb \<and>
      Some [CHR ''h'', CHR ''e'', CHR 0x00, CHR ''#''] = Some b' \<and>
      n = min (c_strlen (name symb)) (3 - 1) \<and>
      1 \<le> (3 :: nat) \<and> n + 1 \<le> 3 \<and>
      length b' = length (replicate 4 (CHR ''#'')) \<and>
      b' ! n = NUL \<and>
      c_string b' = take n (c_string (name symb)) \<and>
      length (c_string b') = n \<and>
      take n b' = take n (name symb) \<and>
      drop (Suc n) b' = drop (Suc n) (replicate 4 (CHR ''#'')))"
proof -
  let ?args = "(demo_args 0x140001040)\<lparr>buf := Some (replicate 4 (CHR ''#'')), buf_len := 3\<rparr>"
  let ?res = "\<lparr>ret = 0, globals_after = demo_globals,
           buf_after = Some [CHR ''h'', CHR ''e'', CHR 0x00, CHR ''#''],
           offp_after = Some (0 :: 64 word)\<rparr>"
  have run: "unw_get_proc_name_windows demo_env demo_globals ?args = Some ?res"
    by code_simp
  have ok: "ret ?res = 0" by simp
  have b: "buf ?args = Some (replicate 4 (CHR ''#''))" by simp
  have len: "buf_len ?args \<le> length (replicate 4 (CHR ''#''))" by simp
  show ?thesis
    using name_copy_truncates[OF run ok b len] run by simp
qed

lemma far_init: "unw_windows_sym_init far_env initial_globals = Some (0, far_globals)"
  by code_simp

lemma far_image_index: "image_index far_env = far_table"
  by code_simp


theorem resolve_returns_floor_symbol_witness:
  "index_fits far_env \<and> PointerToSymbolTable far_env \<noteq> 0 \<and>
   unw_windows_sym_init far_env initial_globals = Some (0, far_globals) \<and>
   image_index far_env =
     [\<lparr>address = 0x140001040, name = ''helper''\<rparr>,
      \<lparr>address = 0x140001100, name = ''main''\<rparr>,
      \<lparr>address = 0x140201000, name = ''long_function_name''\<rparr>] \<and>
   table_entries far_globals = image_index far_env \<and>
   unw_get_proc_name_windows far_env far_globals (wide_args 0x140201000) =
     Some \<lparr>ret = 0, globals_after = far_globals,
           buf_after = Some (''long_function_name'' @ CHR 0x00 # replicate 13 (CHR ''#'')),
           offp_after = Some 0\<rparr> \<and>
   unw_get_proc_name_windows far_env far_globals (wide_args 0x1401010FF) =
     Some \<lparr>ret = 0, globals_after = far_globals,
           buf_after = Some (''main'' @ CHR 0x00 # replicate 27 (CHR ''#'')),
           offp_after = Some 0xFFFFF\<rparr> \<and>
   (\<exists>b'. unw_get_proc_name_windows far_env far_globals (wide_args 0x140201000) =
           Some \<lparr>ret = 0, globals_after = far_globals, buf_after = Some b',
                 offp_after = map_option (\<lambda>old. 0x140201000 - address (image_index far_env ! 2))
                                (offp (wide_args 0x140201000))\<rparr> \<and>
         c_string b' = c_string (name (image_index far_env ! 2))) \<and>
   (\<exists>b'. unw_get_proc_name_windows far_env far_globals (wide_args 0x1401010FF) =
           Some \<lparr>ret = 0, globals_after = far_globals, buf_after = Some b',
                 offp_after = map_option (\<lambda>old. 0x1401010FF - address (image_index far_env ! 1))
                                (offp (wide_args 0x1401010FF))\<rparr> \<and>
         c_string b' = c_string (name (image_index far_env ! 1)))"
proof -
  have fits: "index_fits far_env"
    by (simp add: index_fits_def far_env_def demo_env_def)
  have hdr: "PointerToSymbolTable far_env \<noteq> 0"
    by (simp add: far_env_def demo_env_def)
  have fresh: "g_initialized initial_globals = 0"
    by (simp add: initial_globals_def)
  have idx: "image_index far_env =
     [\<lparr>address = 0x140001040, name = ''helper''\<rparr>,
      \<lparr>address = 0x140001100, name = ''main''\<rparr>,
      \<lparr>address = 0x140201000, name = ''long_function_name''\<rparr>]"
    by (simp add: far_image_index far_table_def)
  have dist: "distinct (map address (image_index far_env))"
    by (simp add: idx)
  have run_exact: "unw_get_proc_name_windows far_env far_globals (wide_args 0x140201000) =
     Some \<lparr>ret = 0, globals_after = far_globals,
           buf_after = Some (''long_function_name'' @ CHR 0x00 # replicate 13 (CHR ''#'')),
           offp_after = Some 0\<rparr>"
    by code_simp
  have run_between: "unw_get_proc_name_windows far_env far_globals (wide_args 0x1401010FF) =
     Some \<lparr>ret = 0, globals_after = far_globals,
           buf_after = Some (''main'' @ CHR 0x00 # replicate 27 (CHR ''#'')),
           offp_after = Some 0xFFFFF\<rparr>"
    by code_simp
  have exact: "table_entries far_globals = image_index far_env \<and>
     (\<exists>b'. unw_get_proc_name_windows far_env far_globals (wide_args 0x140201000) =
           Some \<lparr>ret = 0, globals_after = far_globals, buf_after = Some b',
                 offp_after = map_option (\<lambda>old. 0x140201000 - address (image_index far_env ! 2))
                                (offp (wide_args 0x140201000))\<rparr> \<and>
         c_string b' = c_string (name (image_index far_env ! 2)))"
  proof (rule resolve_returns_floor_symbol[OF fits hdr initial_globals_inv fresh far_init dist])
    show "2 < length (image_index far_env)" by (simp add: idx)
    show "0x140201000 = address (image_index far_env ! 2) \<or>
          Suc 2 < length (image_index far_env) \<and>
          address (image_index far_env ! 2) < 0x140201000 \<and>
          0x140201000 < address (image_index far_env ! Suc 2) \<and>
          0x140201000 - address (image_index far_env ! 2) < 0x100000"
      by (simp add: idx)
    show "(0x140201000 :: 64 word) \<noteq> 0" by simp
    show "cursor (wide_args 0x140201000) = Some \<lparr>get_reg_result = 0, reg_ip = 0x140201000\<rparr>"
      by (simp add: wide_args_def)
    show "get_reg_result \<lparr>get_reg_result = 0, reg_ip = 0x140201000 :: 64 word\<rparr> = 0" by simp
    show "reg_ip \<lparr>get_reg_result = 0, reg_ip = 0x140201000 :: 64 word\<rparr> = 0x140201000" by simp
    show "buf (wide_args 0x140201000) = Some (replicate 32 (CHR ''#''))"
      by (simp add: wide_args_def)
    show "c_strlen (name (image_index far_env ! 2)) < buf_len (wide_args 0x140201000)"
      by (simp add: idx wide_args_def c_strlen_def NUL_def)
    show "buf_len (wide_args 0x140201000) \<le> length (replicate 32 (CHR ''#''))"
      by (simp add: wide_args_def)
  qed
  have between: "table_entries far_globals = image_index far_env \<and>
     (\<exists>b'. unw_get_proc_name_windows far_env far_globals (wide_args 0x1401010FF) =
           Some \<lparr>ret = 0, globals_after = far_globals, buf_after = Some b',
                 offp_after = map_option (\<lambda>old. 0x1401010FF - address (image_index far_env ! 1))
                                (offp (wide_args 0x1401010FF))\<rparr> \<and>
         c_string b' = c_string (name (image_index far_env ! 1)))"
  proof (rule resolve_returns_floor_symbol[OF fits hdr initial_globals_inv fresh far_init dist])
    show "1 < length (image_index far_env)" by (simp add: idx)
    show "0x1401010FF = address (image_index far_env ! 1) \<or>
          Suc 1 < length (image_index far_env) \<and>
          address (image_index far_env ! 1) < 0x1401010FF \<and>
          0x1401010FF < address (image_index far_env ! Suc 1) \<and>
          0x1401010FF - address (image_index far_env ! 1) < 0x100000"
      by (simp add: idx)
    show "(0x1401010FF :: 64 word) \<noteq> 0" by simp
    show "cursor (wide_args 0x1401010FF) = Some \<lparr>get_reg_result = 0, reg_ip = 0x1401010FF\<rparr>"
      by (simp add: wide_args_def)
    show "get_reg_result \<lparr>get_reg_result = 0, reg_ip = 0x1401010FF :: 64 word\<rparr> = 0" by simp
    show "reg_ip \<lparr>get_reg_result = 0, reg_ip = 0x1401010FF :: 64 word\<rparr> = 0x1401010FF" by simp
    show "buf (wide_args 0x1401010FF) = Some (replicate 32 (CHR ''#''))"
      by (simp add: wide_args_def)
    show "c_strlen (name (image_index far_env ! 1)) < buf_len (wide_args 0x1401010FF)"
      by (simp add: idx wide_args_def c_strlen_def NUL_def)
    show "buf_len (wide_args 0x1401010FF) \<le> length (replicate 32 (CHR ''#''))"
      by (simp add: wide_args_def)
  qed
  show ?thesis
    using fits hdr far_init idx run_exact run_between exact between by (intro conjI) simp_all
qed

text \<open>
  Claim C4 as stated fails on the second image at the threshold itself: the query
  \<open>0x140101100\<close> lies strictly between the addresses of \<^verbatim>\<open>main\<close> and of the
  function after it and exactly \<open>0x100000\<close> (1 MiB) above \<^verbatim>\<open>main\<close>, and the lookup
  returns \<^verbatim>\<open>UNW_ENOINFO\<close>.
\<close>

theorem threshold_is_exclusive_counterexample:
  "unw_windows_sym_init far_env initial_globals = Some (0, far_globals) \<and>
   table_entries far_globals =
     [\<lparr>address = 0x140001040, name = ''helper''\<rparr>,
      \<lparr>address = 0x140001100, name = ''main''\<rparr>,
      \<lparr>address = 0x140201000, name = ''long_function_name''\<rparr>] \<and>
   (0x140001100 :: 64 word) < 0x140101100 \<and> (0x140101100 :: 64 word) < 0x140201000 \<and>
   (0x140101100 :: 64 word) - 0x140001100 = 0x100000 \<and>
   unw_get_proc_name_windows far_env far_globals (wide_args 0x140101100) =
     Some \<lparr>ret = UNW_ENOINFO, globals_after = far_globals,
           buf_after = Some (replicate 32 (CHR ''#'')), offp_after = Some 0\<rparr>"
  by code_simp



text \<open>
  Claim C2 on an executable whose file cannot be opened: the first call of
  \<^verbatim>\<open>unw_windows_sym_init\<close> runs the parse and returns -1, the second returns 0.
\<close>

theorem later_init_hides_failure:
  "unw_windows_sym_init unreadable_env initial_globals = Some (- 1, failed_globals) \<and>
   unw_windows_sym_init unreadable_env failed_globals = Some (0, failed_globals)"
  by code_simp

end
